theory Spec2Isabelle
  imports Main "HOL-Library.Sublist" "HOL-Library.Word"
begin

section \<open>The preload script of the desktop application\<close>

text \<open>
  A model of \<^verbatim>\<open>packages/suite-desktop/src/preload/index.ts\<close>: the module-level
  deep-link intake, \<^verbatim>\<open>main()\<close> with its cached window state, the lazily
  constructed extension handler, and the bridges published to the renderer.

  The script runs on a single-threaded event loop. Every run-to-completion piece of it
  is one transition of the model: a bridge call up to its first \<^verbatim>\<open>await\<close>, the
  continuation after an awaited \<^verbatim>\<open>ipcRenderer.invoke\<close> has been answered, the
  delivery of a host-pushed event to the registered listeners.

  Left out, as they touch none of the script's variables: the logger, \<^verbatim>\<open>window.onerror\<close>,
  \<^verbatim>\<open>PreloaderSockets.Create()\<close>, the hidden file input, the storage bridge (each member
  bound to the external \<^verbatim>\<open>LocalFileStorage\<close>), the other members of \<^verbatim>\<open>ctx\<close>, and
  the four \<^verbatim>\<open>contextBridge.exposeInMainWorld\<close> calls that publish the bridges.
\<close>

subsection \<open>Values\<close>

type_synonym handler = nat
  \<comment> \<open>the identity of a function object handed to \<^verbatim>\<open>addIpcEventListener\<close>\<close>

type_synonym promise = nat
  \<comment> \<open>the identity of a promise returned by an \<^verbatim>\<open>async\<close> bridge function\<close>

datatype error = HostError string | TypeError

datatype extensions_handler =
  ExtensionsHandler (identity: nat) (userExtensionsDir: "string list")
  \<comment> \<open>\<^verbatim>\<open>new ExtensionsHandler(userExtensionsDir)\<close>: the object's identity, and the
     arguments of the \<^verbatim>\<open>pathJoin\<close> call that made its directory\<close>

datatype ext_call = ListAll | Load string | Install "8 word list" | Uninstall string
  \<comment> \<open>\<^verbatim>\<open>handler.list()\<close>, \<^verbatim>\<open>handler.load(id)\<close>, \<^verbatim>\<open>handler.install(foxeFileData)\<close>,
     \<^verbatim>\<open>handler.uninstall(id)\<close>\<close>

datatype js_value =
    Undefined
  | Bool bool
  | Str string
  | Strings "string list"
  | Flags "(string \<times> string) list"
  | Layouts "string list"
    \<comment> \<open>what the external \<^verbatim>\<open>fetchLayouts(userLayoutsDir)\<close> yields\<close>
  | Delegated extensions_handler ext_call
    \<comment> \<open>what the given method of the given handler object yields\<close>

datatype settlement = Resolved js_value | Rejected error

datatype listener = SetMaximized bool | Handler handler
  \<comment> \<open>the two arrow functions of \<^verbatim>\<open>main\<close> that assign \<^verbatim>\<open>isMaximized\<close>, and the
     functions registered through the bridges\<close>

datatype continuation =
    AwaitVoid
  | AwaitValue
  | AwaitLayoutsHome
  | AwaitHandlerHome ext_call
  \<comment> \<open>the rest of an \<^verbatim>\<open>async\<close> function after its awaited \<^verbatim>\<open>ipcRenderer.invoke\<close>\<close>

subsection \<open>Strings and the cookie store\<close>

fun str_includes :: "string \<Rightarrow> string \<Rightarrow> bool" where
  "str_includes [] sub = (sub = [])"
| "str_includes (c # cs) sub = (prefix sub (c # cs) \<or> str_includes cs sub)"

fun join :: "string \<Rightarrow> string list \<Rightarrow> string" where
  "join sep [] = []"
| "join sep [x] = x"
| "join sep (x # y # ys) = x @ sep @ join sep (y # ys)"

fun split_on :: "char \<Rightarrow> string \<Rightarrow> string list" where
  "split_on c [] = [[]]"
| "split_on c (x # xs) =
     (if x = c then [] # split_on c xs
      else (case split_on c xs of [] \<Rightarrow> [[x]] | w # ws \<Rightarrow> (x # w) # ws))"

definition trim :: "string \<Rightarrow> string" where
  "trim s = rev (dropWhile (\<lambda>c. c = CHR '' '') (rev (dropWhile (\<lambda>c. c = CHR '' '') s)))"

text \<open>
  The cookies that the document can read, in the order \<^verbatim>\<open>document.cookie\<close> lists
  them. A cookie is identified by its name together with its domain and path. An
  assignment to \<^verbatim>\<open>document.cookie\<close> that gives neither a \<^verbatim>\<open>Domain\<close> nor a \<^verbatim>\<open>Path\<close>
  attribute (neither assignment of the script gives one) addresses the cookie of that
  name at the document's own host and default path. A cookie of the same name that was
  set for another domain or path covering the document is a different cookie, and the
  document reads both.
\<close>

datatype scope = DocumentDefault | Elsewhere string string

datatype cookie = Cookie (cookie_name: string) (cookie_value: string) (cookie_scope: scope)

type_synonym cookie_jar = "cookie list"

text \<open>
  \<^verbatim>\<open>document.cookie\<close> read: the cookies of the document as \<^verbatim>\<open>name=value\<close> pairs
  separated by \<^verbatim>\<open>"; "\<close>.
\<close>

definition cookie_text :: "cookie \<Rightarrow> string" where
  "cookie_text c = cookie_name c @ ''='' @ cookie_value c"

definition cookie_get :: "cookie_jar \<Rightarrow> string" where
  "cookie_get jar = join ''; '' (map cookie_text jar)"

text \<open>
  \<^verbatim>\<open>document.cookie = str\<close>: the first \<^verbatim>\<open>;\<close>-separated segment is \<^verbatim>\<open>name=value\<close>,
  the others are attributes. With the attribute \<^verbatim>\<open>max-age=0\<close> the addressed cookie is
  deleted; otherwise it is stored, replacing the addressed cookie when there is one.
  Cookies of other names, and cookies of that name at another domain or path, stay.
\<close>

definition cookie_pair :: "string \<Rightarrow> string \<times> string" where
  "cookie_pair seg =
     (takeWhile (\<lambda>c. c \<noteq> CHR ''='') seg, drop 1 (dropWhile (\<lambda>c. c \<noteq> CHR ''='') seg))"

definition addresses :: "string \<Rightarrow> cookie \<Rightarrow> bool" where
  "addresses n c = (cookie_name c = n \<and> cookie_scope c = DocumentDefault)"

definition cookie_store :: "string \<Rightarrow> string \<Rightarrow> cookie_jar \<Rightarrow> cookie_jar" where
  "cookie_store n v jar =
     (if list_ex (addresses n) jar
      then map (\<lambda>c. if addresses n c then Cookie n v DocumentDefault else c) jar
      else jar @ [Cookie n v DocumentDefault])"

definition cookie_delete :: "string \<Rightarrow> cookie_jar \<Rightarrow> cookie_jar" where
  "cookie_delete n jar = filter (\<lambda>c. \<not> addresses n c) jar"

definition cookie_set :: "string \<Rightarrow> cookie_jar \<Rightarrow> cookie_jar" where
  "cookie_set str jar =
     (case split_on CHR '';'' str of
        [] \<Rightarrow> jar
      | seg # attrs \<Rightarrow>
          (case cookie_pair (trim seg) of
             (n, v) \<Rightarrow>
               if ''max-age=0'' \<in> set (map trim attrs) then cookie_delete n jar
               else cookie_store n v jar))"

subsection \<open>The state of one preload instance\<close>

record preload =
  document_cookie :: cookie_jar
  argv :: "string list"
  deepLinks :: "string list"
  isMaximized :: bool
  extensionHandler :: "extensions_handler option"
  listeners :: "(string \<times> listener) list"
  sent :: "string list"
  invoked :: "(string \<times> js_value list) list"
  suspended :: "(promise \<times> continuation) list"
  settled :: "(promise \<times> settlement) list"
  promises :: nat
  constructed :: nat
  called :: "handler list"
  domContentLoaded :: bool
  reloading :: bool

text \<open>
  \<^item> \<open>document_cookie\<close>, \<open>argv\<close>: the document's cookies and \<^verbatim>\<open>window.process.argv\<close>;
    both outlive a reload of the window.
  \<^item> \<open>deepLinks\<close>, \<open>isMaximized\<close>, \<open>extensionHandler\<close>: the variables of the script.
  \<^item> \<open>listeners\<close>: the listeners of \<^verbatim>\<open>ipcRenderer\<close>, each with its channel, in the
    order of registration.
  \<^item> \<open>sent\<close>, \<open>invoked\<close>: the channels of the \<^verbatim>\<open>ipcRenderer.send\<close> and
    \<^verbatim>\<open>ipcRenderer.invoke\<close> calls made so far (the latter with their arguments).
  \<^item> \<open>suspended\<close>: the \<^verbatim>\<open>async\<close> calls waiting for the host's answer, most recent
    first; \<open>settled\<close>: the promises settled so far, most recent first; \<open>promises\<close>:
    how many promises the bridge has returned.
  \<^item> \<open>constructed\<close>: how many \<^verbatim>\<open>ExtensionsHandler\<close> objects have been constructed.
  \<^item> \<open>called\<close>: the renderer's functions called by event delivery, in order.
  \<^item> \<open>domContentLoaded\<close>: the \<^verbatim>\<open>once\<close> listener of \<^verbatim>\<open>DOMContentLoaded\<close> has run.
  \<^item> \<open>reloading\<close>: \<^verbatim>\<open>window.location.reload()\<close> has been called.
\<close>

datatype ret = Returns js_value | Promise promise | Closure "preload \<Rightarrow> preload"

subsection \<open>The event emitter and the two IPC primitives\<close>

text \<open>
  \<^verbatim>\<open>ipcRenderer\<close> is a Node event emitter: \<^verbatim>\<open>on\<close> appends a listener, \<^verbatim>\<open>off\<close>
  removes the most recently added occurrence of the given function on the given
  channel (and nothing when there is none), and an event calls the channel's listeners
  in the order of registration. A function of the renderer that is called this way can
  reach the script only through the bridges; what it calls there are further steps of
  the run (see \<open>action\<close> below), and \<open>called\<close> records that it was called.
\<close>

definition remove_last :: "'a \<Rightarrow> 'a list \<Rightarrow> 'a list" where
  "remove_last x xs = rev (remove1 x (rev xs))"

definition ipcRenderer_on :: "string \<Rightarrow> listener \<Rightarrow> preload \<Rightarrow> preload" where
  "ipcRenderer_on ch l s = s\<lparr>listeners := listeners s @ [(ch, l)]\<rparr>"

definition ipcRenderer_off :: "string \<Rightarrow> listener \<Rightarrow> preload \<Rightarrow> preload" where
  "ipcRenderer_off ch l s = s\<lparr>listeners := remove_last (ch, l) (listeners s)\<rparr>"

fun run_listener :: "listener \<Rightarrow> preload \<Rightarrow> preload" where
  "run_listener (SetMaximized b) s = s\<lparr>isMaximized := b\<rparr>"
| "run_listener (Handler h) s = s\<lparr>called := called s @ [h]\<rparr>"

definition listeners_of :: "string \<Rightarrow> preload \<Rightarrow> listener list" where
  "listeners_of ch s = map snd (filter (\<lambda>(c, l). c = ch) (listeners s))"

definition ipcRenderer_emit :: "string \<Rightarrow> preload \<Rightarrow> preload" where
  "ipcRenderer_emit ch s = fold run_listener (listeners_of ch s) s"

definition ipcRenderer_send :: "string \<Rightarrow> preload \<Rightarrow> preload" where
  "ipcRenderer_send ch s = s\<lparr>sent := sent s @ [ch]\<rparr>"

definition ipcRenderer_invoke :: "string \<Rightarrow> js_value list \<Rightarrow> preload \<Rightarrow> preload" where
  "ipcRenderer_invoke ch args s = s\<lparr>invoked := invoked s @ [(ch, args)]\<rparr>"

text \<open>
  An \<^verbatim>\<open>async\<close> function returns a new promise. Either it is suspended at an
  \<^verbatim>\<open>await\<close> with a continuation, or it has run to its end and the promise is settled.
\<close>

definition await :: "continuation \<Rightarrow> preload \<Rightarrow> ret \<times> preload" where
  "await k s =
     (Promise (promises s),
      s\<lparr>suspended := (promises s, k) # suspended s, promises := Suc (promises s)\<rparr>)"

definition settle :: "promise \<Rightarrow> settlement \<Rightarrow> preload \<Rightarrow> preload" where
  "settle p v s = s\<lparr>settled := (p, v) # settled s\<rparr>"

definition finished :: "settlement \<Rightarrow> preload \<Rightarrow> ret \<times> preload" where
  "finished v s = (Promise (promises s), settle (promises s) v (s\<lparr>promises := Suc (promises s)\<rparr>))"

definition settlement_of :: "promise \<Rightarrow> preload \<Rightarrow> settlement option" where
  "settlement_of p s = map_of (settled s) p"

subsection \<open>Module level: the deep-link intake\<close>

text \<open>
  \<^verbatim>\<open>const ignoreDeepLinks = document.cookie.includes("fox.ignoreDeepLinks=true");\<close>
  \<^verbatim>\<open>document.cookie = "fox.ignoreDeepLinks=;max-age=0;";\<close>
  \<^verbatim>\<open>const deepLinks = ignoreDeepLinks ? [] : decodeRendererArg("deepLinks", window.process.argv) ?? [];\<close>

  \<^verbatim>\<open>decodeRendererArg\<close> is imported from \<^verbatim>\<open>../common/rendererArgs\<close> and is a
  parameter here: it yields the decoded list, or nothing (\<^verbatim>\<open>undefined\<close>).
\<close>

type_synonym decoder = "string \<Rightarrow> string list \<Rightarrow> string list option"

definition ignoreDeepLinks :: "cookie_jar \<Rightarrow> bool" where
  "ignoreDeepLinks jar = str_includes (cookie_get jar) ''fox.ignoreDeepLinks=true''"

definition module_deepLinks :: "decoder \<Rightarrow> cookie_jar \<Rightarrow> string list \<Rightarrow> string list" where
  "module_deepLinks decodeRendererArg jar args =
     (if ignoreDeepLinks jar then []
      else (case decodeRendererArg ''deepLinks'' args of None \<Rightarrow> [] | Some links \<Rightarrow> links))"

definition module_load :: "decoder \<Rightarrow> cookie_jar \<Rightarrow> string list \<Rightarrow> preload" where
  "module_load decodeRendererArg jar args =
     \<lparr>document_cookie = cookie_set ''fox.ignoreDeepLinks=;max-age=0;'' jar,
      argv = args,
      deepLinks = module_deepLinks decodeRendererArg jar args,
      isMaximized = False,
      extensionHandler = None,
      listeners = [],
      sent = [],
      invoked = [],
      suspended = [],
      settled = [],
      promises = 0,
      constructed = 0,
      called = [],
      domContentLoaded = False,
      reloading = False\<rparr>"

subsection \<open>\<^verbatim>\<open>main\<close>\<close>

text \<open>
  \<^verbatim>\<open>let isMaximized = false;\<close>
  \<^verbatim>\<open>ipcRenderer.on("maximize", () => (isMaximized = true));\<close>
  \<^verbatim>\<open>ipcRenderer.on("unmaximize", () => (isMaximized = false));\<close>
  \<^verbatim>\<open>let extensionHandler: ExtensionsHandler | undefined;\<close>
\<close>

definition main :: "preload \<Rightarrow> preload" where
  "main s =
     ipcRenderer_on ''unmaximize'' (SetMaximized False)
       (ipcRenderer_on ''maximize'' (SetMaximized True)
          (s\<lparr>isMaximized := False, extensionHandler := None\<rparr>))"

definition attach :: "decoder \<Rightarrow> cookie_jar \<Rightarrow> string list \<Rightarrow> preload" where
  "attach decodeRendererArg jar args = main (module_load decodeRendererArg jar args)"

text \<open>
  The \<^verbatim>\<open>once\<close> listener of \<^verbatim>\<open>DOMContentLoaded\<close> ends with
  \<^verbatim>\<open>void ipcRenderer.invoke("load-pending-files")\<close>.
\<close>

definition dom_content_loaded :: "preload \<Rightarrow> preload" where
  "dom_content_loaded s =
     (if domContentLoaded s then s
      else ipcRenderer_invoke ''load-pending-files'' [] (s\<lparr>domContentLoaded := True\<rparr>))"

subsection \<open>The extension handler\<close>

text \<open>
  \<^verbatim>\<open>const getExtensionHandler = async () => {\<close>
  \<^verbatim>\<open>  if (!extensionHandler) {\<close>
  \<^verbatim>\<open>    const homePath = (await ipcRenderer.invoke("getHomePath")) as string;\<close>
  \<^verbatim>\<open>    const userExtensionsDir = pathJoin(homePath, ".lichtblick-suite", "extensions");\<close>
  \<^verbatim>\<open>    extensionHandler = new ExtensionsHandler(userExtensionsDir);\<close>
  \<^verbatim>\<open>  }\<close>
  \<^verbatim>\<open>  return extensionHandler;\<close>
  \<^verbatim>\<open>};\<close>

  Each of the four extension operations awaits \<^verbatim>\<open>getExtensionHandler()\<close> and then
  calls one method of the handler it got. The part before the \<^verbatim>\<open>await\<close> is
  \<open>getExtensionHandler\<close>; the part after it is the continuation \<open>AwaitHandlerHome\<close>
  of \<open>resume\<close> below. \<^verbatim>\<open>pathJoin\<close> throws a \<^verbatim>\<open>TypeError\<close> on an argument that is
  not a string.
\<close>

definition getExtensionHandler :: "ext_call \<Rightarrow> preload \<Rightarrow> ret \<times> preload" where
  "getExtensionHandler c s =
     (case extensionHandler s of
        None \<Rightarrow> await (AwaitHandlerHome c) (ipcRenderer_invoke ''getHomePath'' [] s)
      | Some h \<Rightarrow> finished (Resolved (Delegated h c)) s)"

fun resume :: "continuation \<Rightarrow> promise \<Rightarrow> error + js_value \<Rightarrow> preload \<Rightarrow> preload" where
  "resume k p (Inl e) s = settle p (Rejected e) s"
| "resume AwaitVoid p (Inr v) s = settle p (Resolved Undefined) s"
| "resume AwaitValue p (Inr v) s = settle p (Resolved v) s"
| "resume AwaitLayoutsHome p (Inr (Str homePath)) s =
     settle p (Resolved (Layouts [homePath, ''.lichtblick-suite'', ''layouts''])) s"
| "resume AwaitLayoutsHome p (Inr v) s = settle p (Rejected TypeError) s"
| "resume (AwaitHandlerHome c) p (Inr (Str homePath)) s =
     (let h = ExtensionsHandler (constructed s) [homePath, ''.lichtblick-suite'', ''extensions'']
      in settle p (Resolved (Delegated h c))
           (s\<lparr>extensionHandler := Some h, constructed := Suc (constructed s)\<rparr>))"
| "resume (AwaitHandlerHome c) p (Inr v) s = settle p (Rejected TypeError) s"

text \<open>The host answers the \<^verbatim>\<open>invoke\<close> a suspended call waits for, or fails it.\<close>

definition host_reply :: "promise \<Rightarrow> error + js_value \<Rightarrow> preload \<Rightarrow> preload" where
  "host_reply p r s =
     (case map_of (suspended s) p of
        None \<Rightarrow> s
      | Some k \<Rightarrow> resume k p r (s\<lparr>suspended := filter (\<lambda>(q, k'). q \<noteq> p) (suspended s)\<rparr>))"

subsection \<open>\<^verbatim>\<open>desktopBridge\<close>\<close>

definition desktopBridge_addIpcEventListener ::
  "string \<Rightarrow> handler \<Rightarrow> preload \<Rightarrow> (preload \<Rightarrow> preload) \<times> preload" where
  "desktopBridge_addIpcEventListener eventName h s =
     (\<lambda>s'. ipcRenderer_off eventName (Handler h) s', ipcRenderer_on eventName (Handler h) s)"

definition setRepresentedFilename :: "string option \<Rightarrow> preload \<Rightarrow> ret \<times> preload" where
  "setRepresentedFilename path s =
     await AwaitVoid
       (ipcRenderer_invoke ''setRepresentedFilename''
          [case path of None \<Rightarrow> Undefined | Some f \<Rightarrow> Str f] s)"

definition updateNativeColorScheme :: "preload \<Rightarrow> ret \<times> preload" where
  "updateNativeColorScheme s = await AwaitVoid (ipcRenderer_invoke ''updateNativeColorScheme'' [] s)"

definition updateLanguage :: "preload \<Rightarrow> ret \<times> preload" where
  "updateLanguage s = await AwaitVoid (ipcRenderer_invoke ''updateLanguage'' [] s)"

definition getCLIFlags :: "preload \<Rightarrow> ret \<times> preload" where
  "getCLIFlags s = await AwaitValue (ipcRenderer_invoke ''getCLIFlags'' [] s)"

definition getDeepLinks :: "preload \<Rightarrow> ret \<times> preload" where
  "getDeepLinks s = (Returns (Strings (deepLinks s)), s)"

text \<open>
  \<^verbatim>\<open>document.cookie = "fox.ignoreDeepLinks=true;";\<close>
  \<^verbatim>\<open>window.location.reload();\<close>
\<close>

definition resetDeepLinks :: "preload \<Rightarrow> ret \<times> preload" where
  "resetDeepLinks s =
     (Returns Undefined,
      s\<lparr>document_cookie := cookie_set ''fox.ignoreDeepLinks=true;'' (document_cookie s),
        reloading := True\<rparr>)"

definition fetchLayouts :: "preload \<Rightarrow> ret \<times> preload" where
  "fetchLayouts s = await AwaitLayoutsHome (ipcRenderer_invoke ''getHomePath'' [] s)"

definition getExtensions :: "preload \<Rightarrow> ret \<times> preload" where
  "getExtensions s = getExtensionHandler ListAll s"

definition loadExtension :: "string \<Rightarrow> preload \<Rightarrow> ret \<times> preload" where
  "loadExtension ext s = getExtensionHandler (Load ext) s"

definition installExtension :: "8 word list \<Rightarrow> preload \<Rightarrow> ret \<times> preload" where
  "installExtension foxeFileData s = getExtensionHandler (Install foxeFileData) s"

definition uninstallExtension :: "string \<Rightarrow> preload \<Rightarrow> ret \<times> preload" where
  "uninstallExtension ext s = getExtensionHandler (Uninstall ext) s"

definition handleTitleBarDoubleClick :: "preload \<Rightarrow> ret \<times> preload" where
  "handleTitleBarDoubleClick s = (Returns Undefined, ipcRenderer_send ''titleBarDoubleClicked'' s)"

definition desktopBridge_isMaximized :: "preload \<Rightarrow> ret \<times> preload" where
  "desktopBridge_isMaximized s = (Returns (Bool (isMaximized s)), s)"

definition minimizeWindow :: "preload \<Rightarrow> ret \<times> preload" where
  "minimizeWindow s = (Returns Undefined, ipcRenderer_send ''minimizeWindow'' s)"

definition maximizeWindow :: "preload \<Rightarrow> ret \<times> preload" where
  "maximizeWindow s = (Returns Undefined, ipcRenderer_send ''maximizeWindow'' s)"

definition unmaximizeWindow :: "preload \<Rightarrow> ret \<times> preload" where
  "unmaximizeWindow s = (Returns Undefined, ipcRenderer_send ''unmaximizeWindow'' s)"

definition closeWindow :: "preload \<Rightarrow> ret \<times> preload" where
  "closeWindow s = (Returns Undefined, ipcRenderer_send ''closeWindow'' s)"

definition reloadWindow :: "preload \<Rightarrow> ret \<times> preload" where
  "reloadWindow s = (Returns Undefined, ipcRenderer_send ''reloadMainWindow'' s)"

text \<open>A call of a member of the published \<^verbatim>\<open>desktopBridge\<close> object.\<close>

datatype desktop_call =
    AddIpcEventListener string handler
  | SetRepresentedFilename "string option"
  | UpdateNativeColorScheme
  | UpdateLanguage
  | GetCLIFlags
  | GetDeepLinks
  | ResetDeepLinks
  | FetchLayouts
  | GetExtensions
  | LoadExtension string
  | InstallExtension "8 word list"
  | UninstallExtension string
  | HandleTitleBarDoubleClick
  | IsMaximized
  | MinimizeWindow
  | MaximizeWindow
  | UnmaximizeWindow
  | CloseWindow
  | ReloadWindow

fun desktopBridge :: "desktop_call \<Rightarrow> preload \<Rightarrow> ret \<times> preload" where
  "desktopBridge (AddIpcEventListener eventName h) s =
     (case desktopBridge_addIpcEventListener eventName h s of (detach, s') \<Rightarrow> (Closure detach, s'))"
| "desktopBridge (SetRepresentedFilename path) s = setRepresentedFilename path s"
| "desktopBridge UpdateNativeColorScheme s = updateNativeColorScheme s"
| "desktopBridge UpdateLanguage s = updateLanguage s"
| "desktopBridge GetCLIFlags s = getCLIFlags s"
| "desktopBridge GetDeepLinks s = getDeepLinks s"
| "desktopBridge ResetDeepLinks s = resetDeepLinks s"
| "desktopBridge FetchLayouts s = fetchLayouts s"
| "desktopBridge GetExtensions s = getExtensions s"
| "desktopBridge (LoadExtension ext) s = loadExtension ext s"
| "desktopBridge (InstallExtension foxeFileData) s = installExtension foxeFileData s"
| "desktopBridge (UninstallExtension ext) s = uninstallExtension ext s"
| "desktopBridge HandleTitleBarDoubleClick s = handleTitleBarDoubleClick s"
| "desktopBridge IsMaximized s = desktopBridge_isMaximized s"
| "desktopBridge MinimizeWindow s = minimizeWindow s"
| "desktopBridge MaximizeWindow s = maximizeWindow s"
| "desktopBridge UnmaximizeWindow s = unmaximizeWindow s"
| "desktopBridge CloseWindow s = closeWindow s"
| "desktopBridge ReloadWindow s = reloadWindow s"

subsection \<open>\<^verbatim>\<open>menuBridge\<close>\<close>

definition menuBridge_addIpcEventListener ::
  "string \<Rightarrow> handler \<Rightarrow> preload \<Rightarrow> (preload \<Rightarrow> preload) \<times> preload" where
  "menuBridge_addIpcEventListener eventName h s =
     (\<lambda>s'. ipcRenderer_off eventName (Handler h) s', ipcRenderer_on eventName (Handler h) s)"

subsection \<open>Runs of one preload instance, and the reload\<close>

text \<open>
  What can happen to a preload instance: the host pushes an event, the host answers or
  fails an awaited \<^verbatim>\<open>invoke\<close>, the document has loaded, the renderer calls a member
  of a bridge, or the renderer calls a detach closure that an \<^verbatim>\<open>addIpcEventListener\<close>
  returned (every such closure is \<^verbatim>\<open>ipcRenderer.off(eventName, handler)\<close> for the
  arguments of its call).
\<close>

datatype action =
    HostEvent string
  | HostReply promise "error + js_value"
  | DOMContentLoaded
  | Desktop desktop_call
  | Menu string handler
  | Detach string handler

fun step :: "action \<Rightarrow> preload \<Rightarrow> preload" where
  "step (HostEvent ch) s = ipcRenderer_emit ch s"
| "step (HostReply p r) s = host_reply p r s"
| "step DOMContentLoaded s = dom_content_loaded s"
| "step (Desktop c) s = snd (desktopBridge c s)"
| "step (Menu eventName h) s = snd (menuBridge_addIpcEventListener eventName h s)"
| "step (Detach eventName h) s = ipcRenderer_off eventName (Handler h) s"

definition run :: "action list \<Rightarrow> preload \<Rightarrow> preload" where
  "run acts s = fold step acts s"

text \<open>
  A reload of the window starts the script again, with the cookies the old instance
  left and the same launch arguments.
\<close>

definition reload :: "decoder \<Rightarrow> preload \<Rightarrow> preload" where
  "reload decodeRendererArg s = attach decodeRendererArg (document_cookie s) (argv s)"

subsection \<open>\<^verbatim>\<open>ctx.getNetworkInterfaces\<close>\<close>

text \<open>
  A property of a JavaScript object that may be missing, or hold \<^verbatim>\<open>undefined\<close> or
  \<^verbatim>\<open>null\<close>.
\<close>

datatype 'a property = Omitted | IsUndefined | IsNull | Holds 'a

record NetworkInterfaceInfo =
  address :: string
  netmask :: string
  family :: string
  mac :: string
  internal :: bool
  scopeid :: "nat option"
  cidr :: "string property"

record NetworkInterface = NetworkInterfaceInfo +
  name :: string

text \<open>\<^verbatim>\<open>info.cidr ?? undefined\<close>\<close>

fun nullish_undefined :: "'a property \<Rightarrow> 'a property" where
  "nullish_undefined (Holds c) = Holds c"
| "nullish_undefined p = IsUndefined"

text \<open>\<^verbatim>\<open>{ name, ...info, cidr: info.cidr ?? undefined }\<close>\<close>

definition entry :: "string \<Rightarrow> NetworkInterfaceInfo \<Rightarrow> NetworkInterface" where
  "entry ifname info =
     \<lparr>address = address info, netmask = netmask info, family = family info, mac = mac info,
      internal = internal info, scopeid = scopeid info,
      cidr = nullish_undefined (cidr info), name = ifname\<rparr>"

text \<open>
  \<^verbatim>\<open>for (const info of iface) { output.push(...) }\<close>, and around it
  \<^verbatim>\<open>for (const name in ifaces) { const iface = ifaces[name]; if (iface == undefined) { continue; } ... }\<close>.
  The result of \<^verbatim>\<open>os.networkInterfaces()\<close> is the list of its keys, in the order
  the loop visits them, each with its value (\<open>None\<close> for \<^verbatim>\<open>undefined\<close>).
\<close>

fun push_infos :: "string \<Rightarrow> NetworkInterface list \<Rightarrow> NetworkInterfaceInfo list \<Rightarrow> NetworkInterface list" where
  "push_infos ifname output [] = output"
| "push_infos ifname output (info # iface) = push_infos ifname (output @ [entry ifname info]) iface"

fun interfaces_loop ::
  "NetworkInterface list \<Rightarrow> (string \<times> NetworkInterfaceInfo list option) list \<Rightarrow> NetworkInterface list" where
  "interfaces_loop output [] = output"
| "interfaces_loop output ((ifname, None) # ifaces) = interfaces_loop output ifaces"
| "interfaces_loop output ((ifname, Some iface) # ifaces) =
     interfaces_loop (push_infos ifname output iface) ifaces"

definition getNetworkInterfaces ::
  "(string \<times> NetworkInterfaceInfo list option) list \<Rightarrow> NetworkInterface list" where
  "getNetworkInterfaces ifaces = interfaces_loop [] ifaces"

subsection \<open>Notions used by the properties\<close>

text \<open>The listeners that assign \<^verbatim>\<open>isMaximized\<close>.\<close>

fun assigns :: "listener \<Rightarrow> bool" where
  "assigns (SetMaximized b) = True"
| "assigns (Handler h) = False"

definition assigning :: "preload \<Rightarrow> (string \<times> listener) list" where
  "assigning s = filter (\<lambda>(ch, l). assigns l) (listeners s)"

definition wired :: "preload \<Rightarrow> bool" where
  "wired s = (assigning s = [(''maximize'', SetMaximized True), (''unmaximize'', SetMaximized False)])"

text \<open>
  The spec's words for the cached flag: false before any maximize or unmaximize
  notification, afterwards what the most recent one said.
\<close>

fun notification :: "action \<Rightarrow> bool option" where
  "notification (HostEvent ch) =
     (if ch = ''maximize'' then Some True else if ch = ''unmaximize'' then Some False else None)"
| "notification a = None"

fun latest_notification :: "action list \<Rightarrow> bool option" where
  "latest_notification [] = None"
| "latest_notification (a # acts) =
     (case latest_notification acts of Some b \<Rightarrow> Some b | None \<Rightarrow> notification a)"

definition spec_isMaximized :: "action list \<Rightarrow> bool" where
  "spec_isMaximized acts = (case latest_notification acts of None \<Rightarrow> False | Some b \<Rightarrow> b)"

text \<open>What a listener makes of the flag.\<close>

fun assigned :: "listener \<Rightarrow> bool \<Rightarrow> bool" where
  "assigned (SetMaximized c) b = c"
| "assigned (Handler h) b = b"

fun is_promise :: "ret \<Rightarrow> bool" where
  "is_promise (Promise p) = True"
| "is_promise r = False"

text \<open>The cookie that \<^verbatim>\<open>resetDeepLinks\<close> leaves for the next instance.\<close>

definition sentinel_set :: "preload \<Rightarrow> bool" where
  "sentinel_set s =
     (Cookie ''fox.ignoreDeepLinks'' ''true'' DocumentDefault \<in> set (document_cookie s))"

text \<open>A cookie whose \<^verbatim>\<open>name=value\<close> text contains the text the script looks for.\<close>

definition carries_marker :: "cookie \<Rightarrow> bool" where
  "carries_marker c = str_includes (cookie_text c) ''fox.ignoreDeepLinks=true''"

text \<open>A decoder that finds one deep link in the renderer arguments.\<close>

definition one_link :: decoder where
  "one_link k args = (if k = ''deepLinks'' then Some [''lichtblick://open?ds=sample''] else None)"

text \<open>A decoder that finds no renderer argument.\<close>

definition no_renderer_args :: decoder where
  "no_renderer_args k args = None"

text \<open>Two addresses of a loopback interface, the second without a CIDR.\<close>

definition lo4 :: NetworkInterfaceInfo where
  "lo4 = \<lparr>address = ''127.0.0.1'', netmask = ''255.0.0.0'', family = ''IPv4'',
          mac = ''00:00:00:00:00:00'', internal = True, scopeid = None,
          cidr = Holds ''127.0.0.1/8''\<rparr>"

definition lo6 :: NetworkInterfaceInfo where
  "lo6 = \<lparr>address = ''::1'', netmask = ''ffff:ffff:ffff:ffff:ffff:ffff:ffff:ffff'',
          family = ''IPv6'', mac = ''00:00:00:00:00:00'', internal = True, scopeid = Some 0,
          cidr = IsNull\<rparr>"

section \<open>Properties\<close>

lemmas prim_defs =
  ipcRenderer_on_def ipcRenderer_off_def ipcRenderer_send_def ipcRenderer_invoke_def
  await_def settle_def finished_def

lemmas bridge_defs =
  desktopBridge_addIpcEventListener_def menuBridge_addIpcEventListener_def
  setRepresentedFilename_def updateNativeColorScheme_def updateLanguage_def getCLIFlags_def
  getDeepLinks_def resetDeepLinks_def fetchLayouts_def getExtensions_def loadExtension_def
  installExtension_def uninstallExtension_def handleTitleBarDoubleClick_def
  desktopBridge_isMaximized_def minimizeWindow_def maximizeWindow_def unmaximizeWindow_def
  closeWindow_def reloadWindow_def getExtensionHandler_def dom_content_loaded_def

subsection \<open>What event delivery and continuations leave alone\<close>

lemma run_listener_frame:
  "listeners (run_listener l s) = listeners s"
  "deepLinks (run_listener l s) = deepLinks s"
  "document_cookie (run_listener l s) = document_cookie s"
  "extensionHandler (run_listener l s) = extensionHandler s"
  by (cases l; simp)+

lemma fold_run_listener_frame:
  "listeners (fold run_listener ls s) = listeners s"
  "deepLinks (fold run_listener ls s) = deepLinks s"
  "document_cookie (fold run_listener ls s) = document_cookie s"
  "extensionHandler (fold run_listener ls s) = extensionHandler s"
  by (induction ls arbitrary: s; simp add: run_listener_frame)+

lemma emit_frame:
  "listeners (ipcRenderer_emit ch s) = listeners s"
  "deepLinks (ipcRenderer_emit ch s) = deepLinks s"
  "document_cookie (ipcRenderer_emit ch s) = document_cookie s"
  "extensionHandler (ipcRenderer_emit ch s) = extensionHandler s"
  by (simp_all add: ipcRenderer_emit_def fold_run_listener_frame)

lemma resume_frame:
  "listeners (resume k p r s) = listeners s"
  "deepLinks (resume k p r s) = deepLinks s"
  "document_cookie (resume k p r s) = document_cookie s"
  "isMaximized (resume k p r s) = isMaximized s"
  by (induction k p r s rule: resume.induct; simp add: settle_def Let_def)+

lemma host_reply_frame:
  "listeners (host_reply p r s) = listeners s"
  "deepLinks (host_reply p r s) = deepLinks s"
  "document_cookie (host_reply p r s) = document_cookie s"
  "isMaximized (host_reply p r s) = isMaximized s"
  by (simp_all add: host_reply_def resume_frame split: option.splits)

lemma desktopBridge_deepLinks: "deepLinks (snd (desktopBridge c s)) = deepLinks s"
  by (cases c) (simp_all add: bridge_defs prim_defs split: option.splits)

lemma desktopBridge_isMaximized_frame: "isMaximized (snd (desktopBridge c s)) = isMaximized s"
  by (cases c) (simp_all add: bridge_defs prim_defs split: option.splits)

lemma step_deepLinks: "deepLinks (step a s) = deepLinks s"
  by (cases a)
     (simp_all add: emit_frame host_reply_frame desktopBridge_deepLinks bridge_defs prim_defs)

lemma run_deepLinks: "deepLinks (run acts s) = deepLinks s"
  unfolding run_def by (induction acts arbitrary: s) (simp_all add: step_deepLinks)

subsection \<open>The two assigning listeners stay registered\<close>

lemma filter_remove1_other: "\<not> P x \<Longrightarrow> filter P (remove1 x ys) = filter P ys"
  by (induction ys) auto

lemma filter_remove_last_other: "\<not> P x \<Longrightarrow> filter P (remove_last x xs) = filter P xs"
  by (simp add: remove_last_def filter_remove1_other flip: rev_filter)

lemma wired_attach: "wired (attach d jar args)"
  by (simp add: wired_def assigning_def attach_def main_def ipcRenderer_on_def module_load_def)

lemma assigning_desktopBridge: "assigning (snd (desktopBridge c s)) = assigning s"
  by (cases c)
     (simp_all add: assigning_def bridge_defs prim_defs filter_remove_last_other
        split: option.splits)

lemma assigning_step: "assigning (step a s) = assigning s"
  by (cases a)
     (simp_all add: assigning_def emit_frame host_reply_frame bridge_defs prim_defs
        filter_remove_last_other assigning_desktopBridge [unfolded assigning_def])

lemma wired_step: "wired s \<Longrightarrow> wired (step a s)"
  by (simp add: wired_def assigning_step)

lemma wired_run: "wired s \<Longrightarrow> wired (run acts s)"
  unfolding run_def by (induction acts arbitrary: s) (simp_all add: wired_step)

subsection \<open>The cached flag\<close>

lemma fold_run_listener_isMaximized:
  "isMaximized (fold run_listener ls s) = fold assigned ls (isMaximized s)"
proof (induction ls arbitrary: s)
  case Nil
  show ?case by simp
next
  case (Cons l ls)
  show ?case by (cases l) (simp_all add: Cons.IH)
qed

lemma fold_assigned_filter: "fold assigned ls b = fold assigned (filter assigns ls) b"
proof (induction ls arbitrary: b)
  case Nil
  show ?case by simp
next
  case (Cons l ls)
  show ?case by (cases l) (simp_all add: Cons.IH)
qed

lemma filter_assigns_listeners_of:
  "filter assigns (listeners_of ch s) = map snd (filter (\<lambda>(c, l). c = ch) (assigning s))"
  by (simp add: listeners_of_def assigning_def filter_map comp_def case_prod_unfold conj_commute)

lemma emit_isMaximized:
  assumes "wired s"
  shows "isMaximized (ipcRenderer_emit ch s) =
    (if ch = ''maximize'' then True else if ch = ''unmaximize'' then False else isMaximized s)"
proof -
  have "isMaximized (ipcRenderer_emit ch s) =
      fold assigned (filter assigns (listeners_of ch s)) (isMaximized s)"
    unfolding ipcRenderer_emit_def fold_run_listener_isMaximized
    by (rule fold_assigned_filter)
  also have "filter assigns (listeners_of ch s) =
      map snd (filter (\<lambda>(c, l). c = ch)
        [(''maximize'', SetMaximized True), (''unmaximize'', SetMaximized False)])"
    using assms by (simp add: filter_assigns_listeners_of wired_def)
  finally show ?thesis by simp
qed

lemma step_isMaximized:
  "wired s \<Longrightarrow>
   isMaximized (step a s) = (case notification a of None \<Rightarrow> isMaximized s | Some b \<Rightarrow> b)"
  by (cases a)
     (simp_all add: emit_isMaximized host_reply_frame desktopBridge_isMaximized_frame
        bridge_defs prim_defs)

lemma run_isMaximized:
  "wired s \<Longrightarrow>
   isMaximized (run acts s) =
     (case latest_notification acts of None \<Rightarrow> isMaximized s | Some b \<Rightarrow> b)"
proof (induction acts arbitrary: s)
  case Nil
  show ?case by (simp add: run_def)
next
  case (Cons a acts)
  have "isMaximized (run (a # acts) s) = isMaximized (run acts (step a s))"
    by (simp add: run_def)
  also have "\<dots> = (case latest_notification acts of None \<Rightarrow> isMaximized (step a s) | Some b \<Rightarrow> b)"
    using Cons.prems by (intro Cons.IH wired_step)
  finally show ?case
    using Cons.prems by (simp add: step_isMaximized split: option.splits)
qed

lemma isMaximized_attach: "isMaximized (attach d jar args) = False"
  by (simp add: attach_def main_def ipcRenderer_on_def module_load_def)

text \<open>
  Claim C2. After any run of a preload instance, \<^verbatim>\<open>isMaximized()\<close> returns false when
  the host has pushed no \<^verbatim>\<open>maximize\<close> or \<^verbatim>\<open>unmaximize\<close> event, and otherwise what
  the most recent of them said (true for \<^verbatim>\<open>maximize\<close>, false for \<^verbatim>\<open>unmaximize\<close>),
  whatever else happened in between. An event on any other channel leaves the value as
  it was.
\<close>
theorem isMaximized_follows_notifications:
  "fst (desktopBridge_isMaximized (run acts (attach d jar args))) = Returns (Bool (spec_isMaximized acts))
   \<and> fst (desktopBridge_isMaximized (step (HostEvent ch) (run acts (attach d jar args)))) =
       Returns (Bool (if ch = ''maximize'' then True
                      else if ch = ''unmaximize'' then False
                      else isMaximized (run acts (attach d jar args))))"
proof -
  have w: "wired (run acts (attach d jar args))"
    by (intro wired_run wired_attach)
  have "isMaximized (run acts (attach d jar args)) = spec_isMaximized acts"
    by (simp add: run_isMaximized wired_attach isMaximized_attach spec_isMaximized_def
        split: option.splits)
  moreover have "isMaximized (step (HostEvent ch) (run acts (attach d jar args))) =
      (if ch = ''maximize'' then True else if ch = ''unmaximize'' then False
       else isMaximized (run acts (attach d jar args)))"
    using w by (simp add: emit_isMaximized)
  ultimately show ?thesis
    by (simp add: desktopBridge_isMaximized_def)
qed

text \<open>
  Claim C10. \<^verbatim>\<open>minimizeWindow()\<close>, \<^verbatim>\<open>maximizeWindow()\<close>, \<^verbatim>\<open>unmaximizeWindow()\<close> and
  \<^verbatim>\<open>handleTitleBarDoubleClick()\<close> leave the cached flag as it was, in every state. In a
  run of a preload instance the flag after a step is the flag before it, unless the step
  is the delivery of a host-pushed \<^verbatim>\<open>maximize\<close> or \<^verbatim>\<open>unmaximize\<close> event.
\<close>
theorem window_commands_keep_isMaximized:
  "isMaximized (snd (minimizeWindow s)) = isMaximized s
   \<and> isMaximized (snd (maximizeWindow s)) = isMaximized s
   \<and> isMaximized (snd (unmaximizeWindow s)) = isMaximized s
   \<and> isMaximized (snd (handleTitleBarDoubleClick s)) = isMaximized s
   \<and> isMaximized (step a (run acts (attach d jar args))) =
       (case notification a of
          None \<Rightarrow> isMaximized (run acts (attach d jar args))
        | Some b \<Rightarrow> b)"
proof -
  have "wired (run acts (attach d jar args))"
    by (intro wired_run wired_attach)
  then show ?thesis
    by (simp add: step_isMaximized minimizeWindow_def maximizeWindow_def unmaximizeWindow_def
        handleTitleBarDoubleClick_def ipcRenderer_send_def)
qed

subsection \<open>The two \<^verbatim>\<open>addIpcEventListener\<close>\<close>

text \<open>
  Claim C9. The \<^verbatim>\<open>addIpcEventListener\<close> of \<^verbatim>\<open>desktopBridge\<close> and the one of
  \<^verbatim>\<open>menuBridge\<close> are the same function: for every event name, handler and state they
  register the same listener and return the same detach closure.
\<close>
theorem addIpcEventListener_bridges_equal:
  "desktopBridge_addIpcEventListener = menuBridge_addIpcEventListener"
  by (intro ext) (simp add: desktopBridge_addIpcEventListener_def menuBridge_addIpcEventListener_def)

subsection \<open>The cookie store\<close>

lemma cookie_set_clear [simp]:
  "cookie_set ''fox.ignoreDeepLinks=;max-age=0;'' jar = cookie_delete ''fox.ignoreDeepLinks'' jar"
  by (simp add: cookie_set_def cookie_pair_def trim_def)

lemma cookie_set_sentinel [simp]:
  "cookie_set ''fox.ignoreDeepLinks=true;'' jar = cookie_store ''fox.ignoreDeepLinks'' ''true'' jar"
  by (simp add: cookie_set_def cookie_pair_def trim_def)

lemma replaced_member:
  "list_ex (addresses n) jar \<Longrightarrow>
   Cookie n v DocumentDefault \<in>
     set (map (\<lambda>c. if addresses n c then Cookie n v DocumentDefault else c) jar)"
  by (induction jar) auto

lemma cookie_store_member: "Cookie n v DocumentDefault \<in> set (cookie_store n v jar)"
  by (simp add: cookie_store_def replaced_member del: set_map)

lemma str_includes_iff: "str_includes s sub \<longleftrightarrow> (\<exists>ps ss. s = ps @ sub @ ss)"
proof (induction s)
  case Nil
  show ?case by auto
next
  case (Cons c cs)
  show ?case
  proof
    assume "str_includes (c # cs) sub"
    then consider "prefix sub (c # cs)" | "str_includes cs sub" by auto
    then show "\<exists>ps ss. c # cs = ps @ sub @ ss"
    proof cases
      case 1
      then obtain ss where "c # cs = sub @ ss" by (auto simp: prefix_def)
      then have "c # cs = [] @ sub @ ss" by simp
      then show ?thesis by blast
    next
      case 2
      then obtain ps ss where "cs = ps @ sub @ ss" using Cons.IH by blast
      then have "c # cs = (c # ps) @ sub @ ss" by simp
      then show ?thesis by blast
    qed
  next
    assume "\<exists>ps ss. c # cs = ps @ sub @ ss"
    then obtain ps ss where eq: "c # cs = ps @ sub @ ss" by blast
    show "str_includes (c # cs) sub"
    proof (cases ps)
      case Nil
      with eq have "prefix sub (c # cs)" by (simp add: prefix_def)
      then show ?thesis by simp
    next
      case (Cons q qs)
      with eq have "cs = qs @ sub @ ss" by simp
      then have "str_includes cs sub" using Cons.IH by blast
      then show ?thesis by simp
    qed
  qed
qed

lemma join_member: "x \<in> set xs \<Longrightarrow> \<exists>ps ss. join sep xs = ps @ x @ ss"
proof (induction sep xs rule: join.induct)
  case (1 sep)
  then show ?case by simp
next
  case (2 sep y)
  then have "join sep [y] = [] @ x @ []" by simp
  then show ?case by blast
next
  case (3 sep y z zs)
  show ?case
  proof (cases "x = y")
    case True
    then have "join sep (y # z # zs) = [] @ x @ (sep @ join sep (z # zs))" by simp
    then show ?thesis by blast
  next
    case False
    with 3 obtain ps ss where "join sep (z # zs) = ps @ x @ ss" by auto
    then have "join sep (y # z # zs) = (y @ sep @ ps) @ x @ ss" by simp
    then show ?thesis by blast
  qed
qed

text \<open>
  A text without \<^verbatim>\<open>;\<close> that does not start with a space occurs in the joined string
  only inside one of the joined parts.
\<close>

lemma str_includes_across:
  assumes "c \<notin> set sub" and "str_includes (a @ c # b) sub"
  shows "str_includes a sub \<or> str_includes b sub"
proof -
  from assms(2) obtain ps ss where eq: "a @ c # b = ps @ sub @ ss"
    unfolding str_includes_iff by blast
  then consider us where "a = ps @ us" "us @ c # b = sub @ ss"
    | us where "a @ us = ps" "c # b = us @ sub @ ss"
    by (auto simp: append_eq_append_conv2)
  then show ?thesis
  proof cases
    case 1
    from 1(2) consider vs where "us = sub @ vs" | vs where "us @ vs = sub" "c # b = vs @ ss"
      by (auto simp: append_eq_append_conv2)
    then show ?thesis
    proof cases
      case 1
      with \<open>a = ps @ us\<close> have "a = ps @ sub @ vs" by simp
      then show ?thesis unfolding str_includes_iff by blast
    next
      case 2
      show ?thesis
      proof (cases vs)
        case Nil
        with 2 \<open>a = ps @ us\<close> have "a = ps @ sub @ []" by simp
        then show ?thesis unfolding str_includes_iff by blast
      next
        case (Cons v vs')
        with 2 have "c \<in> set sub" by auto
        with assms(1) show ?thesis by simp
      qed
    qed
  next
    case 2
    show ?thesis
    proof (cases us)
      case Nil
      with 2(2) have "c # b = sub @ ss" by simp
      with assms(1) have "sub = []" by (cases sub) auto
      then have "a = a @ sub @ []" by simp
      then show ?thesis unfolding str_includes_iff by blast
    next
      case (Cons u us')
      with 2(2) have "b = us' @ sub @ ss" by simp
      then show ?thesis unfolding str_includes_iff by blast
    qed
  qed
qed

lemma str_includes_after_space:
  assumes "sub \<noteq> []" and "hd sub \<noteq> CHR '' ''" and "str_includes (CHR '' '' # b) sub"
  shows "str_includes b sub"
proof -
  from assms(1,2) have "\<not> prefix sub (CHR '' '' # b)"
    by (cases sub) auto
  with assms(3) show ?thesis by simp
qed

lemma str_includes_join:
  assumes "CHR '';'' \<notin> set sub" and "sub \<noteq> []" and "hd sub \<noteq> CHR '' ''"
  shows "str_includes (join ''; '' xs) sub \<Longrightarrow> \<exists>x\<in>set xs. str_includes x sub"
proof (induction xs rule: induct_list012)
  case 1
  with assms(2) show ?case by simp
next
  case (2 x)
  then show ?case by simp
next
  case (3 x y zs)
  from 3(3) have "str_includes (x @ CHR '';'' # CHR '' '' # join ''; '' (y # zs)) sub"
    by simp
  with assms(1) have "str_includes x sub \<or> str_includes (CHR '' '' # join ''; '' (y # zs)) sub"
    by (rule str_includes_across)
  then show ?case
  proof
    assume "str_includes x sub"
    then show ?thesis by simp
  next
    assume "str_includes (CHR '' '' # join ''; '' (y # zs)) sub"
    with assms(2,3) have "str_includes (join ''; '' (y # zs)) sub"
      by (rule str_includes_after_space)
    with 3(2) show ?thesis by auto
  qed
qed

lemma ignoreDeepLinks_iff: "ignoreDeepLinks jar = list_ex carries_marker jar"
proof
  assume "ignoreDeepLinks jar"
  then have "str_includes (join ''; '' (map cookie_text jar)) ''fox.ignoreDeepLinks=true''"
    by (simp add: ignoreDeepLinks_def cookie_get_def)
  then have "\<exists>x\<in>set (map cookie_text jar). str_includes x ''fox.ignoreDeepLinks=true''"
    by (intro str_includes_join) simp_all
  then show "list_ex carries_marker jar"
    by (auto simp: list_ex_iff carries_marker_def)
next
  assume "list_ex carries_marker jar"
  then obtain c where c: "c \<in> set jar"
    and "str_includes (cookie_text c) ''fox.ignoreDeepLinks=true''"
    by (auto simp: list_ex_iff carries_marker_def)
  then obtain ps ss where t: "cookie_text c = ps @ ''fox.ignoreDeepLinks=true'' @ ss"
    unfolding str_includes_iff by blast
  from c have "cookie_text c \<in> set (map cookie_text jar)" by simp
  then obtain qs rs where "join ''; '' (map cookie_text jar) = qs @ cookie_text c @ rs"
    using join_member by blast
  with t have "join ''; '' (map cookie_text jar) =
      (qs @ ps) @ ''fox.ignoreDeepLinks=true'' @ (ss @ rs)"
    by simp
  then show "ignoreDeepLinks jar"
    unfolding ignoreDeepLinks_def cookie_get_def str_includes_iff by blast
qed

lemma carries_marker_sentinel: "carries_marker (Cookie ''fox.ignoreDeepLinks'' ''true'' sc)"
  by (simp add: carries_marker_def cookie_text_def)

lemma ignoreDeepLinks_sentinel:
  assumes "Cookie ''fox.ignoreDeepLinks'' ''true'' sc \<in> set jar"
  shows "ignoreDeepLinks jar"
  unfolding ignoreDeepLinks_iff list_ex_iff using assms carries_marker_sentinel by blast

subsection \<open>Deep links\<close>

lemma desktopBridge_sentinel: "sentinel_set s \<Longrightarrow> sentinel_set (snd (desktopBridge c s))"
  by (cases c)
     (simp_all add: sentinel_set_def bridge_defs prim_defs cookie_store_member
        split: option.splits)

lemma step_sentinel: "sentinel_set s \<Longrightarrow> sentinel_set (step a s)"
  by (cases a)
     (simp_all add: desktopBridge_sentinel,
      simp_all add: sentinel_set_def emit_frame host_reply_frame bridge_defs prim_defs)

lemma run_sentinel: "sentinel_set s \<Longrightarrow> sentinel_set (run acts s)"
  unfolding run_def by (induction acts arbitrary: s) (simp_all add: step_sentinel)

lemma resetDeepLinks_sentinel: "sentinel_set (snd (resetDeepLinks s))"
  by (simp add: sentinel_set_def resetDeepLinks_def cookie_store_member)

lemma deepLinks_attach:
  "deepLinks (attach d jar args) =
     (if ignoreDeepLinks jar then []
      else (case d ''deepLinks'' args of None \<Rightarrow> [] | Some links \<Rightarrow> links))"
  by (simp add: attach_def main_def ipcRenderer_on_def module_load_def module_deepLinks_def)

lemma document_cookie_attach:
  "document_cookie (attach d jar args) = cookie_delete ''fox.ignoreDeepLinks'' jar"
  by (simp add: attach_def main_def ipcRenderer_on_def module_load_def)

lemma deepLinks_reload: "sentinel_set s \<Longrightarrow> deepLinks (reload d s) = []"
  by (simp add: reload_def deepLinks_attach sentinel_set_def ignoreDeepLinks_sentinel)

text \<open>
  Claim C4, as stated, fails whichever cookie is taken for the sentinel. With the only
  cookie \<^verbatim>\<open>xfox.ignoreDeepLinks=true\<close> there is no cookie named \<^verbatim>\<open>fox.ignoreDeepLinks\<close>,
  yet the deep link of the launch arguments is not returned; and the text the script
  looks for is in the cookies before attach and still there after it. With the cookie
  \<^verbatim>\<open>fox.ignoreDeepLinks=true\<close> set for another path, attach deletes nothing, so the
  cookie and the text are still there after it.
\<close>
theorem sentinel_counterexample:
  "\<not> list_ex (\<lambda>c. cookie_name c = ''fox.ignoreDeepLinks'')
        [Cookie ''xfox.ignoreDeepLinks'' ''true'' DocumentDefault]
   \<and> one_link ''deepLinks'' [] = Some [''lichtblick://open?ds=sample'']
   \<and> fst (getDeepLinks
        (attach one_link [Cookie ''xfox.ignoreDeepLinks'' ''true'' DocumentDefault] [])) =
       Returns (Strings [])
   \<and> ignoreDeepLinks [Cookie ''xfox.ignoreDeepLinks'' ''true'' DocumentDefault]
   \<and> ignoreDeepLinks
        (document_cookie
          (attach one_link [Cookie ''xfox.ignoreDeepLinks'' ''true'' DocumentDefault] []))
   \<and> ignoreDeepLinks [Cookie ''fox.ignoreDeepLinks'' ''true'' (Elsewhere ''localhost'' ''/'')]
   \<and> document_cookie
        (attach one_link [Cookie ''fox.ignoreDeepLinks'' ''true'' (Elsewhere ''localhost'' ''/'')] []) =
       [Cookie ''fox.ignoreDeepLinks'' ''true'' (Elsewhere ''localhost'' ''/'')]
   \<and> ignoreDeepLinks
        (document_cookie
          (attach one_link [Cookie ''fox.ignoreDeepLinks'' ''true'' (Elsewhere ''localhost'' ''/'')] []))"
  by (simp add: getDeepLinks_def deepLinks_attach document_cookie_attach ignoreDeepLinks_iff
      carries_marker_def cookie_text_def cookie_delete_def addresses_def one_link_def)

text \<open>
  Claim C4, amended. At attach, \<^verbatim>\<open>getDeepLinks()\<close> returns the empty list exactly when
  the \<^verbatim>\<open>name=value\<close> text of some cookie of the document contains
  \<^verbatim>\<open>fox.ignoreDeepLinks=true\<close> (as the cookie \<^verbatim>\<open>fox.ignoreDeepLinks=true\<close> does, at any
  path), and otherwise the list decoded from the launch arguments (empty when the
  decoder yields nothing). Attach deletes the cookie named \<^verbatim>\<open>fox.ignoreDeepLinks\<close> at the
  document's default path and keeps every other cookie; after attach that text is in the
  cookies exactly when one of the kept cookies contains it. \<^verbatim>\<open>getDeepLinks()\<close> returns
  the same list after any run of the instance.
\<close>
theorem getDeepLinks_at_attach:
  "fst (getDeepLinks (attach d jar args)) =
     Returns (Strings (if list_ex carries_marker jar then []
                       else (case d ''deepLinks'' args of None \<Rightarrow> [] | Some links \<Rightarrow> links)))
   \<and> carries_marker (Cookie ''fox.ignoreDeepLinks'' ''true'' sc)
   \<and> document_cookie (attach d jar args) =
       filter (\<lambda>c. \<not> (cookie_name c = ''fox.ignoreDeepLinks'' \<and> cookie_scope c = DocumentDefault)) jar
   \<and> ignoreDeepLinks (document_cookie (attach d jar args)) =
       list_ex carries_marker
         (filter (\<lambda>c. \<not> (cookie_name c = ''fox.ignoreDeepLinks'' \<and> cookie_scope c = DocumentDefault)) jar)
   \<and> fst (getDeepLinks (run acts (attach d jar args))) = fst (getDeepLinks (attach d jar args))"
proof -
  have kept: "document_cookie (attach d jar args) =
      filter (\<lambda>c. \<not> (cookie_name c = ''fox.ignoreDeepLinks'' \<and> cookie_scope c = DocumentDefault)) jar"
    by (simp add: document_cookie_attach cookie_delete_def addresses_def)
  have "deepLinks (attach d jar args) =
      (if list_ex carries_marker jar then []
       else (case d ''deepLinks'' args of None \<Rightarrow> [] | Some links \<Rightarrow> links))"
    by (simp add: deepLinks_attach ignoreDeepLinks_iff)
  moreover have "ignoreDeepLinks (document_cookie (attach d jar args)) =
      list_ex carries_marker
        (filter (\<lambda>c. \<not> (cookie_name c = ''fox.ignoreDeepLinks'' \<and> cookie_scope c = DocumentDefault)) jar)"
    unfolding kept by (rule ignoreDeepLinks_iff)
  ultimately show ?thesis
    using kept carries_marker_sentinel [of sc]
    by (simp add: getDeepLinks_def run_deepLinks)
qed

text \<open>
  Claim C5. \<^verbatim>\<open>resetDeepLinks()\<close> stores the sentinel cookie and asks for a reload. The
  instance that a reload starts afterwards (also when the old instance went on running
  before the reload happened) has no deep links: \<^verbatim>\<open>getDeepLinks()\<close> returns the empty
  list there, at attach and after any run.
\<close>
theorem resetDeepLinks_reload_delivers_nothing:
  "reloading (snd (resetDeepLinks s))
   \<and> Cookie ''fox.ignoreDeepLinks'' ''true'' DocumentDefault \<in>
       set (document_cookie (snd (resetDeepLinks s)))
   \<and> fst (getDeepLinks (reload d (snd (resetDeepLinks s)))) = Returns (Strings [])
   \<and> fst (getDeepLinks (run after (reload d (run before (snd (resetDeepLinks s)))))) =
       Returns (Strings [])"
proof -
  have r: "reloading (snd (resetDeepLinks s))"
    by (simp add: resetDeepLinks_def)
  have c: "sentinel_set (snd (resetDeepLinks s))"
    by (rule resetDeepLinks_sentinel)
  have "sentinel_set (run before (snd (resetDeepLinks s)))"
    using c by (rule run_sentinel)
  then have "deepLinks (run after (reload d (run before (snd (resetDeepLinks s))))) = []"
    by (simp add: run_deepLinks deepLinks_reload)
  moreover have "deepLinks (reload d (snd (resetDeepLinks s))) = []"
    using c by (rule deepLinks_reload)
  ultimately show ?thesis
    using r c by (simp add: getDeepLinks_def sentinel_set_def)
qed

subsection \<open>Attach and detach\<close>

lemma remove1_filter: "count_list ys x \<le> 1 \<Longrightarrow> remove1 x ys = filter (\<lambda>y. y \<noteq> x) ys"
proof (induction ys)
  case Nil
  show ?case by simp
next
  case (Cons y ys)
  show ?case
  proof (cases "y = x")
    case True
    with Cons.prems have "count_list ys x = 0" by simp
    then have "x \<notin> set ys" by (simp add: count_list_0_iff)
    then have "filter (\<lambda>y. y \<noteq> x) ys = ys" by (induction ys) auto
    with True show ?thesis by simp
  next
    case False
    with Cons show ?thesis by simp
  qed
qed

lemma remove_last_filter:
  "count_list xs x \<le> 1 \<Longrightarrow> remove_last x xs = filter (\<lambda>y. y \<noteq> x) xs"
  by (simp add: remove_last_def remove1_filter rev_filter)

lemma count_list_remove1: "count_list (remove1 y ys) x = count_list ys x - (if x = y \<and> y \<in> set ys then 1 else 0)"
  by (induction ys) auto

lemma count_list_remove_last:
  "count_list (remove_last y xs) x = count_list xs x - (if x = y \<and> y \<in> set xs then 1 else 0)"
  by (simp add: remove_last_def count_list_remove1)

lemma desktopBridge_listeners:
  "listeners (snd (desktopBridge c s)) =
     (case c of AddIpcEventListener e h \<Rightarrow> listeners s @ [(e, Handler h)] | _ \<Rightarrow> listeners s)"
  by (cases c) (simp_all add: bridge_defs prim_defs split: option.splits)

lemma step_listeners:
  "listeners (step a s) =
     (case a of
        Desktop (AddIpcEventListener e h) \<Rightarrow> listeners s @ [(e, Handler h)]
      | Menu e h \<Rightarrow> listeners s @ [(e, Handler h)]
      | Detach e h \<Rightarrow> remove_last (e, Handler h) (listeners s)
      | _ \<Rightarrow> listeners s)"
  by (cases a)
     (simp_all add: emit_frame host_reply_frame desktopBridge_listeners bridge_defs prim_defs
        split: desktop_call.splits)

lemma step_count_le:
  "a \<noteq> Desktop (AddIpcEventListener e h) \<Longrightarrow> a \<noteq> Menu e h \<Longrightarrow>
   count_list (listeners (step a s)) (e, Handler h) \<le> count_list (listeners s) (e, Handler h)"
  by (auto simp: step_listeners count_list_remove_last split: action.splits desktop_call.splits)

lemma run_count_le:
  "Desktop (AddIpcEventListener e h) \<notin> set acts \<Longrightarrow> Menu e h \<notin> set acts \<Longrightarrow>
   count_list (listeners (run acts s)) (e, Handler h) \<le> count_list (listeners s) (e, Handler h)"
proof (induction acts arbitrary: s)
  case Nil
  show ?case by (simp add: run_def)
next
  case (Cons a acts)
  have "count_list (listeners (run acts (step a s))) (e, Handler h)
      \<le> count_list (listeners (step a s)) (e, Handler h)"
    using Cons.prems by (intro Cons.IH) auto
  also have "\<dots> \<le> count_list (listeners s) (e, Handler h)"
    using Cons.prems by (intro step_count_le) auto
  finally show ?case by (simp add: run_def)
qed

lemma step_count_ge:
  "a \<noteq> Detach e h \<Longrightarrow>
   count_list (listeners s) (e, Handler h) \<le> count_list (listeners (step a s)) (e, Handler h)"
  by (auto simp: step_listeners count_list_remove_last split: action.splits desktop_call.splits)

lemma run_count_ge:
  "Detach e h \<notin> set acts \<Longrightarrow>
   count_list (listeners s) (e, Handler h) \<le> count_list (listeners (run acts s)) (e, Handler h)"
proof (induction acts arbitrary: s)
  case Nil
  show ?case by (simp add: run_def)
next
  case (Cons a acts)
  have "count_list (listeners s) (e, Handler h) \<le> count_list (listeners (step a s)) (e, Handler h)"
    using Cons.prems by (intro step_count_ge) auto
  also have "\<dots> \<le> count_list (listeners (run acts (step a s))) (e, Handler h)"
    using Cons.prems by (intro Cons.IH) auto
  finally show ?case by (simp add: run_def)
qed

lemma off_once:
  assumes "count_list (listeners t) (e, Handler h) \<le> 1"
  shows "listeners (ipcRenderer_off e (Handler h) t) =
           filter (\<lambda>r. r \<noteq> (e, Handler h)) (listeners t)"
    and "ipcRenderer_off e (Handler h) (ipcRenderer_off e (Handler h) t) =
           ipcRenderer_off e (Handler h) t"
proof -
  show l: "listeners (ipcRenderer_off e (Handler h) t) =
      filter (\<lambda>r. r \<noteq> (e, Handler h)) (listeners t)"
    using assms by (simp add: ipcRenderer_off_def remove_last_filter)
  have "count_list (filter (\<lambda>r. r \<noteq> (e, Handler h)) (listeners t)) (e, Handler h) = 0"
    by (simp add: count_list_0_iff)
  then have "remove_last (e, Handler h) (filter (\<lambda>r. r \<noteq> (e, Handler h)) (listeners t)) =
      filter (\<lambda>r. r \<noteq> (e, Handler h)) (listeners t)"
    by (simp add: remove_last_filter)
  with l show "ipcRenderer_off e (Handler h) (ipcRenderer_off e (Handler h) t) =
      ipcRenderer_off e (Handler h) t"
    by (simp add: ipcRenderer_off_def)
qed

text \<open>
  Claim C3, as stated, fails when the same function object is registered twice on one
  event name: after two attach calls with handler 7 on \<^verbatim>\<open>maximize\<close>, the first call
  of the first detach closure leaves one registration of the handler, and a second call
  of that same closure removes it too, although the closure of the second attach was
  never called.
\<close>
theorem detach_twice_counterexample:
  "listeners_of ''maximize''
     (fst (desktopBridge_addIpcEventListener ''maximize'' 7 (attach no_renderer_args [] []))
        (snd (desktopBridge_addIpcEventListener ''maximize'' 7
           (snd (desktopBridge_addIpcEventListener ''maximize'' 7 (attach no_renderer_args [] []))))))
     = [SetMaximized True, Handler 7]
   \<and> listeners_of ''maximize''
     (fst (desktopBridge_addIpcEventListener ''maximize'' 7 (attach no_renderer_args [] []))
        (fst (desktopBridge_addIpcEventListener ''maximize'' 7 (attach no_renderer_args [] []))
           (snd (desktopBridge_addIpcEventListener ''maximize'' 7
              (snd (desktopBridge_addIpcEventListener ''maximize'' 7 (attach no_renderer_args [] [])))))))
     = [SetMaximized True]
   \<and> fst (desktopBridge_addIpcEventListener ''maximize'' 7 (attach no_renderer_args [] []))
        (fst (desktopBridge_addIpcEventListener ''maximize'' 7 (attach no_renderer_args [] []))
           (snd (desktopBridge_addIpcEventListener ''maximize'' 7
              (snd (desktopBridge_addIpcEventListener ''maximize'' 7 (attach no_renderer_args [] []))))))
     \<noteq> fst (desktopBridge_addIpcEventListener ''maximize'' 7 (attach no_renderer_args [] []))
          (snd (desktopBridge_addIpcEventListener ''maximize'' 7
             (snd (desktopBridge_addIpcEventListener ''maximize'' 7 (attach no_renderer_args [] [])))))"
  by (simp add: desktopBridge_addIpcEventListener_def ipcRenderer_on_def ipcRenderer_off_def
      remove_last_def listeners_of_def attach_def main_def module_load_def)

text \<open>
  Claim C3, amended. Take either bridge's \<^verbatim>\<open>addIpcEventListener\<close>, a handler that is
  not registered on the event name when it is attached, and any run afterwards in which
  that handler is not attached to that event name again (other handlers may be attached
  and detached, events delivered, this closure called). Then calling the returned detach
  closure removes the registration of that handler and keeps every other listener, in
  order; it changes nothing else; calling it again changes nothing; and if the closure
  was not called during the run, the registration was still there, exactly once.
\<close>
theorem detach_removes_own_registration:
  assumes bridge: "add = desktopBridge_addIpcEventListener \<or> add = menuBridge_addIpcEventListener"
    and fresh: "(eventName, Handler h) \<notin> set (listeners s)"
    and others: "Desktop (AddIpcEventListener eventName h) \<notin> set acts" "Menu eventName h \<notin> set acts"
  shows "listeners (fst (add eventName h s) (run acts (snd (add eventName h s)))) =
           filter (\<lambda>r. r \<noteq> (eventName, Handler h)) (listeners (run acts (snd (add eventName h s))))
       \<and> fst (add eventName h s) (run acts (snd (add eventName h s))) =
           (run acts (snd (add eventName h s)))
             \<lparr>listeners := filter (\<lambda>r. r \<noteq> (eventName, Handler h))
                 (listeners (run acts (snd (add eventName h s))))\<rparr>
       \<and> fst (add eventName h s) (fst (add eventName h s) (run acts (snd (add eventName h s)))) =
           fst (add eventName h s) (run acts (snd (add eventName h s)))
       \<and> (Detach eventName h \<notin> set acts \<longrightarrow>
            count_list (listeners (run acts (snd (add eventName h s)))) (eventName, Handler h) = 1)"
proof -
  let ?x = "(eventName, Handler h)"
  have f: "fst (add eventName h s) = ipcRenderer_off eventName (Handler h)"
    and s1: "snd (add eventName h s) = ipcRenderer_on eventName (Handler h) s"
    using bridge
    by (auto simp: desktopBridge_addIpcEventListener_def menuBridge_addIpcEventListener_def)
  let ?s1 = "ipcRenderer_on eventName (Handler h) s"
  have one: "count_list (listeners ?s1) ?x = 1"
    using fresh by (simp add: ipcRenderer_on_def count_list_0_iff)
  have le: "count_list (listeners (run acts ?s1)) ?x \<le> 1"
    using run_count_le [OF others, of ?s1] one by simp
  have ge: "Detach eventName h \<notin> set acts \<Longrightarrow> 1 \<le> count_list (listeners (run acts ?s1)) ?x"
    using run_count_ge [of eventName h acts ?s1] one by simp
  have l: "listeners (ipcRenderer_off eventName (Handler h) (run acts ?s1)) =
      filter (\<lambda>r. r \<noteq> ?x) (listeners (run acts ?s1))"
    using le by (rule off_once)
  have idem: "ipcRenderer_off eventName (Handler h) (ipcRenderer_off eventName (Handler h) (run acts ?s1)) =
      ipcRenderer_off eventName (Handler h) (run acts ?s1)"
    using le by (rule off_once)
  have only: "ipcRenderer_off eventName (Handler h) (run acts ?s1) =
      (run acts ?s1)\<lparr>listeners := filter (\<lambda>r. r \<noteq> ?x) (listeners (run acts ?s1))\<rparr>"
    using l by (simp add: ipcRenderer_off_def)
  show ?thesis
    unfolding f s1 using l only idem le ge by auto
qed

theorem detach_removes_own_registration_witness:
  "(desktopBridge_addIpcEventListener = desktopBridge_addIpcEventListener
      \<or> desktopBridge_addIpcEventListener = menuBridge_addIpcEventListener)
   \<and> (''maximize'', Handler 4) \<notin> set (listeners (attach no_renderer_args [] []))
   \<and> Desktop (AddIpcEventListener ''maximize'' 4) \<notin>
        set [Menu ''maximize'' 2, HostEvent ''maximize'', Desktop (AddIpcEventListener ''maximize'' 3)]
   \<and> Menu ''maximize'' 4 \<notin>
        set [Menu ''maximize'' 2, HostEvent ''maximize'', Desktop (AddIpcEventListener ''maximize'' 3)]
   \<and> listeners
        (fst (desktopBridge_addIpcEventListener ''maximize'' 4 (attach no_renderer_args [] []))
          (run [Menu ''maximize'' 2, HostEvent ''maximize'', Desktop (AddIpcEventListener ''maximize'' 3)]
            (snd (desktopBridge_addIpcEventListener ''maximize'' 4 (attach no_renderer_args [] [])))))
      = [(''maximize'', SetMaximized True), (''unmaximize'', SetMaximized False),
         (''maximize'', Handler 2), (''maximize'', Handler 3)]
   \<and> fst (desktopBridge_addIpcEventListener ''maximize'' 4 (attach no_renderer_args [] []))
        (fst (desktopBridge_addIpcEventListener ''maximize'' 4 (attach no_renderer_args [] []))
          (run [Menu ''maximize'' 2, HostEvent ''maximize'', Desktop (AddIpcEventListener ''maximize'' 3)]
            (snd (desktopBridge_addIpcEventListener ''maximize'' 4 (attach no_renderer_args [] [])))))
      = fst (desktopBridge_addIpcEventListener ''maximize'' 4 (attach no_renderer_args [] []))
          (run [Menu ''maximize'' 2, HostEvent ''maximize'', Desktop (AddIpcEventListener ''maximize'' 3)]
            (snd (desktopBridge_addIpcEventListener ''maximize'' 4 (attach no_renderer_args [] []))))"
proof -
  let ?s = "attach no_renderer_args [] []"
  let ?acts = "[Menu ''maximize'' 2, HostEvent ''maximize'', Desktop (AddIpcEventListener ''maximize'' 3)]"
  have b: "desktopBridge_addIpcEventListener = desktopBridge_addIpcEventListener
      \<or> desktopBridge_addIpcEventListener = menuBridge_addIpcEventListener"
    by simp
  have l: "listeners ?s = [(''maximize'', SetMaximized True), (''unmaximize'', SetMaximized False)]"
    by (simp add: attach_def main_def module_load_def ipcRenderer_on_def)
  have f: "(''maximize'', Handler 4) \<notin> set (listeners ?s)"
    by (simp add: l)
  have o1: "Desktop (AddIpcEventListener ''maximize'' 4) \<notin> set ?acts"
    by simp
  have o2: "Menu ''maximize'' 4 \<notin> set ?acts"
    by simp
  have r: "listeners (run ?acts (snd (desktopBridge_addIpcEventListener ''maximize'' 4 ?s))) =
      [(''maximize'', SetMaximized True), (''unmaximize'', SetMaximized False),
       (''maximize'', Handler 4), (''maximize'', Handler 2), (''maximize'', Handler 3)]"
    by (simp add: run_def emit_frame bridge_defs prim_defs l)
  let ?d = "fst (desktopBridge_addIpcEventListener ''maximize'' 4 ?s)"
  let ?t = "run ?acts (snd (desktopBridge_addIpcEventListener ''maximize'' 4 ?s))"
  note inst = detach_removes_own_registration [OF b f o1 o2]
  from inst have "listeners (?d ?t) = filter (\<lambda>r. r \<noteq> (''maximize'', Handler 4)) (listeners ?t)"
    by (rule conjunct1)
  then have removed: "listeners (?d ?t) =
      [(''maximize'', SetMaximized True), (''unmaximize'', SetMaximized False),
       (''maximize'', Handler 2), (''maximize'', Handler 3)]"
    by (simp add: r)
  from inst have again: "?d (?d ?t) = ?d ?t"
    by (rule conjunct1 [OF conjunct2 [OF conjunct2]])
  from b f o1 o2 removed again show ?thesis
    by blast
qed

subsection \<open>Network interfaces\<close>

lemma push_infos_eq: "push_infos ifname acc iface = acc @ map (entry ifname) iface"
  by (induction iface arbitrary: acc) simp_all

lemma interfaces_loop_eq:
  "interfaces_loop acc ifaces =
     acc @ concat (map (\<lambda>(ifname, iface).
        case iface of None \<Rightarrow> [] | Some infos \<Rightarrow> map (entry ifname) infos) ifaces)"
  by (induction acc ifaces rule: interfaces_loop.induct) (simp_all add: push_infos_eq)

lemma cidr_entry:
  "cidr (entry ifname info) = (case cidr info of Holds c \<Rightarrow> Holds c | _ \<Rightarrow> IsUndefined)"
  "cidr (entry ifname info) \<noteq> Omitted"
  "name (entry ifname info) = ifname"
  by (cases "cidr info"; simp add: entry_def)+

text \<open>
  Claim C8. Let the keys of the host's interface enumeration be distinct, as the keys of
  an object are. \<^verbatim>\<open>getNetworkInterfaces()\<close> returns, in order, one entry for every
  address of every interface that has an address list. So no entry carries the name of
  an interface whose address list is absent; and every entry has its \<^verbatim>\<open>cidr\<close> key
  present, holding the CIDR the host reported for that address when there is one, and
  \<^verbatim>\<open>undefined\<close> when the host's value is missing, \<^verbatim>\<open>undefined\<close> or \<^verbatim>\<open>null\<close>.
\<close>
theorem getNetworkInterfaces_entries:
  assumes "distinct (map fst ifaces)"
  shows "getNetworkInterfaces ifaces =
           concat (map (\<lambda>(ifname, iface).
             case iface of None \<Rightarrow> [] | Some infos \<Rightarrow> map (entry ifname) infos) ifaces)
       \<and> ((ifname, None) \<in> set ifaces \<longrightarrow> ifname \<notin> name ` set (getNetworkInterfaces ifaces))
       \<and> (e \<in> set (getNetworkInterfaces ifaces) \<longrightarrow>
            cidr e \<noteq> Omitted
            \<and> (\<exists>infos info. (name e, Some infos) \<in> set ifaces \<and> info \<in> set infos
                 \<and> e = entry (name e) info
                 \<and> cidr e = (case cidr info of Holds c \<Rightarrow> Holds c | _ \<Rightarrow> IsUndefined)))"
proof -
  have eq: "getNetworkInterfaces ifaces =
      concat (map (\<lambda>(ifname, iface).
        case iface of None \<Rightarrow> [] | Some infos \<Rightarrow> map (entry ifname) infos) ifaces)"
    by (simp add: getNetworkInterfaces_def interfaces_loop_eq)
  have origin: "\<exists>infos info. (name x, Some infos) \<in> set ifaces \<and> info \<in> set infos \<and> x = entry (name x) info"
    if "x \<in> set (getNetworkInterfaces ifaces)" for x
  proof -
    from that obtain n i where ni: "(n, i) \<in> set ifaces"
      and x: "x \<in> set (case i of None \<Rightarrow> [] | Some infos \<Rightarrow> map (entry n) infos)"
      unfolding eq by auto
    then obtain infos where i: "i = Some infos" by (cases i) auto
    with x obtain info where "info \<in> set infos" "x = entry n info" by auto
    with ni i show ?thesis by (auto simp: cidr_entry)
  qed
  have absent: "ifname \<notin> name ` set (getNetworkInterfaces ifaces)" if "(ifname, None) \<in> set ifaces"
  proof
    assume "ifname \<in> name ` set (getNetworkInterfaces ifaces)"
    then obtain x where "x \<in> set (getNetworkInterfaces ifaces)" "name x = ifname" by auto
    with origin obtain infos where "(ifname, Some infos) \<in> set ifaces" by blast
    with that assms show False
      by (metis eq_key_imp_eq_value option.distinct(1))
  qed
  have present: "cidr e \<noteq> Omitted
      \<and> (\<exists>infos info. (name e, Some infos) \<in> set ifaces \<and> info \<in> set infos
           \<and> e = entry (name e) info
           \<and> cidr e = (case cidr info of Holds c \<Rightarrow> Holds c | _ \<Rightarrow> IsUndefined))"
    if "e \<in> set (getNetworkInterfaces ifaces)"
  proof -
    from origin [OF that] obtain infos info where
      *: "(name e, Some infos) \<in> set ifaces" "info \<in> set infos" "e = entry (name e) info"
      by blast
    from *(3) have "cidr e = (case cidr info of Holds c \<Rightarrow> Holds c | _ \<Rightarrow> IsUndefined)"
      and "cidr e \<noteq> Omitted"
      by (metis cidr_entry(1), metis cidr_entry(2))
    with * show ?thesis by blast
  qed
  show ?thesis
    using eq absent present by blast
qed

theorem getNetworkInterfaces_entries_witness:
  "distinct (map fst [(''lo'', Some [lo4, lo6]), (''eth0'', None)])
   \<and> getNetworkInterfaces [(''lo'', Some [lo4, lo6]), (''eth0'', None)] =
       [entry ''lo'' lo4, entry ''lo'' lo6]
   \<and> (''eth0'', None) \<in> set [(''lo'', Some [lo4, lo6]), (''eth0'', None)]
   \<and> ''eth0'' \<notin> name ` set (getNetworkInterfaces [(''lo'', Some [lo4, lo6]), (''eth0'', None)])
   \<and> entry ''lo'' lo6 \<in> set (getNetworkInterfaces [(''lo'', Some [lo4, lo6]), (''eth0'', None)])
   \<and> cidr (entry ''lo'' lo6) \<noteq> Omitted
   \<and> cidr (entry ''lo'' lo6) = IsUndefined
   \<and> cidr (entry ''lo'' lo4) = Holds ''127.0.0.1/8''"
proof -
  let ?ifaces = "[(''lo'', Some [lo4, lo6]), (''eth0'', None)]"
  have d: "distinct (map fst ?ifaces)"
    by simp
  note inst = getNetworkInterfaces_entries [OF d, of "''eth0''" "entry ''lo'' lo6"]
  from inst have eq: "getNetworkInterfaces ?ifaces = [entry ''lo'' lo4, entry ''lo'' lo6]"
    by simp
  have m: "(''eth0'', None) \<in> set ?ifaces"
    by simp
  from inst m have absent: "''eth0'' \<notin> name ` set (getNetworkInterfaces ?ifaces)"
    by blast
  have e: "entry ''lo'' lo6 \<in> set (getNetworkInterfaces ?ifaces)"
    by (simp add: eq)
  from inst e have present: "cidr (entry ''lo'' lo6) \<noteq> Omitted"
    by blast
  have c6: "cidr (entry ''lo'' lo6) = IsUndefined"
    by (simp add: entry_def lo6_def)
  have c4: "cidr (entry ''lo'' lo4) = Holds ''127.0.0.1/8''"
    by (simp add: entry_def lo4_def)
  from d eq m absent e present c6 c4 show ?thesis
    by blast
qed

subsection \<open>The extension handler\<close>

lemma getExtensionHandler_frame:
  "extensionHandler (snd (getExtensionHandler c s)) = extensionHandler s"
  "constructed (snd (getExtensionHandler c s)) = constructed s"
  by (simp_all add: getExtensionHandler_def prim_defs split: option.splits)

lemma resume_failure:
  "resume k p (Inl e) s = settle p (Rejected e) s"
  by simp

lemma host_reply_failure_frame:
  "extensionHandler (host_reply p (Inl e) s) = extensionHandler s"
  "constructed (host_reply p (Inl e) s) = constructed s"
  "invoked (host_reply p (Inl e) s) = invoked s"
  "promises (host_reply p (Inl e) s) = promises s"
  by (simp_all add: host_reply_def settle_def split: option.splits)

lemma host_reply_failure_rejects:
  "map_of (suspended s) p = Some k \<Longrightarrow>
   settlement_of p (host_reply p (Inl e) s) = Some (Rejected e)"
  by (simp add: host_reply_def settle_def settlement_of_def)

lemma getExtensionHandler_absent:
  assumes "extensionHandler s = None"
  shows "fst (getExtensionHandler c s) = Promise (promises s)"
    and "invoked (snd (getExtensionHandler c s)) = invoked s @ [(''getHomePath'', [])]"
    and "map_of (suspended (snd (getExtensionHandler c s))) (promises s) = Some (AwaitHandlerHome c)"
    and "promises (snd (getExtensionHandler c s)) = Suc (promises s)"
  using assms by (simp_all add: getExtensionHandler_def prim_defs)

text \<open>
  Claim C7. Let no handler be cached when an extension operation is called (each of the
  four is \<open>getExtensionHandler\<close> with its method). The call asks the host for the home
  path and returns a promise. If the host fails that lookup, the promise is rejected
  with the host's error, no handler is cached and none has been constructed. Neither the
  call nor a failed lookup ever writes the cached handler, in any state. The next
  extension operation asks the host again, and when that lookup succeeds it constructs
  the handler and caches it.
\<close>
theorem getExtensionHandler_lookup_failure:
  assumes "extensionHandler s = None"
  shows "fst (getExtensionHandler c s) = Promise (promises s)
     \<and> invoked (snd (getExtensionHandler c s)) = invoked s @ [(''getHomePath'', [])]
     \<and> settlement_of (promises s)
         (host_reply (promises s) (Inl e) (snd (getExtensionHandler c s))) = Some (Rejected e)
     \<and> extensionHandler (host_reply (promises s) (Inl e) (snd (getExtensionHandler c s))) = None
     \<and> constructed (host_reply (promises s) (Inl e) (snd (getExtensionHandler c s))) = constructed s
     \<and> extensionHandler (snd (getExtensionHandler c' t)) = extensionHandler t
     \<and> extensionHandler (host_reply p (Inl e') t) = extensionHandler t
     \<and> fst (getExtensionHandler c'
           (host_reply (promises s) (Inl e) (snd (getExtensionHandler c s)))) =
         Promise (Suc (promises s))
     \<and> invoked (snd (getExtensionHandler c'
           (host_reply (promises s) (Inl e) (snd (getExtensionHandler c s))))) =
         invoked s @ [(''getHomePath'', []), (''getHomePath'', [])]
     \<and> extensionHandler
         (host_reply (Suc (promises s)) (Inr (Str homePath))
           (snd (getExtensionHandler c'
             (host_reply (promises s) (Inl e) (snd (getExtensionHandler c s)))))) =
         Some (ExtensionsHandler (constructed s) [homePath, ''.lichtblick-suite'', ''extensions''])"
proof -
  let ?s1 = "snd (getExtensionHandler c s)"
  let ?s2 = "host_reply (promises s) (Inl e) ?s1"
  let ?s3 = "snd (getExtensionHandler c' ?s2)"
  note first = getExtensionHandler_absent [OF assms, of c]
  have rejected: "settlement_of (promises s) ?s2 = Some (Rejected e)"
    using first(3) by (rule host_reply_failure_rejects)
  have slot: "extensionHandler ?s2 = None"
    by (simp add: host_reply_failure_frame getExtensionHandler_frame assms)
  have count: "constructed ?s2 = constructed s"
    by (simp add: host_reply_failure_frame getExtensionHandler_frame)
  have p2: "promises ?s2 = Suc (promises s)"
    by (simp add: host_reply_failure_frame first(4))
  have i2: "invoked ?s2 = invoked s @ [(''getHomePath'', [])]"
    by (simp add: host_reply_failure_frame first(2))
  note second = getExtensionHandler_absent [OF slot, of c']
  have again: "fst (getExtensionHandler c' ?s2) = Promise (Suc (promises s))"
    using second(1) by (simp add: p2)
  have i3: "invoked ?s3 = invoked s @ [(''getHomePath'', []), (''getHomePath'', [])]"
    using second(2) by (simp add: i2)
  have k3: "map_of (suspended ?s3) (Suc (promises s)) = Some (AwaitHandlerHome c')"
    using second(3) by (simp add: p2)
  have c3: "constructed ?s3 = constructed s"
    by (simp add: getExtensionHandler_frame count)
  have built: "extensionHandler (host_reply (Suc (promises s)) (Inr (Str homePath)) ?s3) =
      Some (ExtensionsHandler (constructed s) [homePath, ''.lichtblick-suite'', ''extensions''])"
    using k3 c3 by (simp add: host_reply_def settle_def Let_def)
  show ?thesis
    using first(1,2) rejected slot count again i3 built
    by (simp add: getExtensionHandler_frame host_reply_failure_frame)
qed

lemma attach_no_renderer_args:
  "attach no_renderer_args [] [] =
     \<lparr>document_cookie = [], argv = [], deepLinks = [], isMaximized = False,
      extensionHandler = None,
      listeners = [(''maximize'', SetMaximized True), (''unmaximize'', SetMaximized False)],
      sent = [], invoked = [], suspended = [], settled = [], promises = 0, constructed = 0,
      called = [], domContentLoaded = False, reloading = False\<rparr>"
  by (simp add: attach_def main_def module_load_def module_deepLinks_def no_renderer_args_def
      ipcRenderer_on_def cookie_delete_def)

theorem getExtensionHandler_lookup_failure_witness:
  "extensionHandler (attach no_renderer_args [] []) = None
   \<and> fst (getExtensions (attach no_renderer_args [] [])) = Promise 0
   \<and> settlement_of 0
        (host_reply 0 (Inl (HostError ''no home directory''))
          (snd (getExtensions (attach no_renderer_args [] [])))) =
       Some (Rejected (HostError ''no home directory''))
   \<and> extensionHandler
        (host_reply 0 (Inl (HostError ''no home directory''))
          (snd (getExtensions (attach no_renderer_args [] [])))) = None
   \<and> extensionHandler
        (host_reply 1 (Inr (Str ''/home/user''))
          (snd (getExtensionHandler (Load ''ext'')
            (host_reply 0 (Inl (HostError ''no home directory''))
              (snd (getExtensions (attach no_renderer_args [] []))))))) =
       Some (ExtensionsHandler 0 [''/home/user'', ''.lichtblick-suite'', ''extensions''])"
proof -
  let ?s = "attach no_renderer_args [] []"
  have h: "extensionHandler ?s = None"
    by (simp add: attach_no_renderer_args)
  have p: "promises ?s = 0" and c: "constructed ?s = 0"
    by (simp_all add: attach_no_renderer_args)
  note inst = getExtensionHandler_lookup_failure
    [OF h, where c = ListAll and e = "HostError ''no home directory''"
      and c' = "Load ''ext''" and homePath = "''/home/user''"]
  let ?s1 = "snd (getExtensionHandler ListAll ?s)"
  let ?s2 = "host_reply 0 (Inl (HostError ''no home directory'')) ?s1"
  from inst have a1: "fst (getExtensionHandler ListAll ?s) = Promise 0"
    unfolding p by blast
  from inst have a2: "settlement_of 0 ?s2 = Some (Rejected (HostError ''no home directory''))"
    unfolding p by blast
  from inst have a3: "extensionHandler ?s2 = None"
    unfolding p by blast
  from inst have a4: "extensionHandler
      (host_reply (Suc 0) (Inr (Str ''/home/user'')) (snd (getExtensionHandler (Load ''ext'') ?s2))) =
      Some (ExtensionsHandler 0 [''/home/user'', ''.lichtblick-suite'', ''extensions''])"
    unfolding p c by blast
  from h a1 a2 a3 a4 show ?thesis
    unfolding getExtensions_def One_nat_def by blast
qed

text \<open>
  Called one after the other, two extension operations share one handler and one
  round trip.
\<close>

lemma getExtensionHandler_sequential:
  "settlement_of 1
     (run [Desktop GetExtensions, HostReply 0 (Inr (Str ''/home/user'')),
           Desktop (LoadExtension ''ext'')]
       (attach no_renderer_args [] [])) =
     Some (Resolved (Delegated
       (ExtensionsHandler 0 [''/home/user'', ''.lichtblick-suite'', ''extensions''])
       (Load ''ext'')))
   \<and> invoked
     (run [Desktop GetExtensions, HostReply 0 (Inr (Str ''/home/user'')),
           Desktop (LoadExtension ''ext'')]
       (attach no_renderer_args [] [])) = [(''getHomePath'', [])]
   \<and> constructed
     (run [Desktop GetExtensions, HostReply 0 (Inr (Str ''/home/user'')),
           Desktop (LoadExtension ''ext'')]
       (attach no_renderer_args [] [])) = 1"
  by (simp add: attach_no_renderer_args run_def bridge_defs prim_defs host_reply_def
      settlement_of_def Let_def)

text \<open>
  Claim C1 does not hold of \<^verbatim>\<open>getExtensionHandler\<close>: the test \<^verbatim>\<open>!extensionHandler\<close>
  is made before the \<^verbatim>\<open>await\<close> and the assignment after it. When \<^verbatim>\<open>getExtensions()\<close>
  is called twice before the host has answered the first call, both calls ask the host
  for the home path, each answer constructs a handler of its own, and the two promises
  resolve with two different handler objects.
\<close>
theorem getExtensionHandler_race:
  "fst (desktopBridge GetExtensions (attach no_renderer_args [] [])) = Promise 0
   \<and> fst (desktopBridge GetExtensions (step (Desktop GetExtensions) (attach no_renderer_args [] []))) =
       Promise 1
   \<and> settlement_of 0
        (run [Desktop GetExtensions, Desktop GetExtensions,
              HostReply 0 (Inr (Str ''/home/user'')), HostReply 1 (Inr (Str ''/home/user''))]
          (attach no_renderer_args [] [])) =
       Some (Resolved (Delegated
         (ExtensionsHandler 0 [''/home/user'', ''.lichtblick-suite'', ''extensions'']) ListAll))
   \<and> settlement_of 1
        (run [Desktop GetExtensions, Desktop GetExtensions,
              HostReply 0 (Inr (Str ''/home/user'')), HostReply 1 (Inr (Str ''/home/user''))]
          (attach no_renderer_args [] [])) =
       Some (Resolved (Delegated
         (ExtensionsHandler 1 [''/home/user'', ''.lichtblick-suite'', ''extensions'']) ListAll))
   \<and> invoked
        (run [Desktop GetExtensions, Desktop GetExtensions,
              HostReply 0 (Inr (Str ''/home/user'')), HostReply 1 (Inr (Str ''/home/user''))]
          (attach no_renderer_args [] [])) =
       [(''getHomePath'', []), (''getHomePath'', [])]
   \<and> constructed
        (run [Desktop GetExtensions, Desktop GetExtensions,
              HostReply 0 (Inr (Str ''/home/user'')), HostReply 1 (Inr (Str ''/home/user''))]
          (attach no_renderer_args [] [])) = 2"
  by (simp add: attach_no_renderer_args run_def bridge_defs prim_defs host_reply_def
      settlement_of_def Let_def)

subsection \<open>Which members wait for the host\<close>

text \<open>
  Claim C6, as stated, fails for the window commands: \<^verbatim>\<open>minimizeWindow()\<close> sends its
  message to the host and returns \<^verbatim>\<open>undefined\<close>; no promise is made and nothing waits
  for the host. The same holds of the maximize, unmaximize, close and reload commands.
\<close>
theorem window_commands_counterexample:
  "sent (snd (desktopBridge MinimizeWindow (attach no_renderer_args [] []))) = [''minimizeWindow'']
   \<and> fst (desktopBridge MinimizeWindow (attach no_renderer_args [] [])) = Returns Undefined
   \<and> \<not> is_promise (fst (desktopBridge MinimizeWindow (attach no_renderer_args [] [])))
   \<and> \<not> is_promise (fst (desktopBridge MaximizeWindow (attach no_renderer_args [] [])))
   \<and> \<not> is_promise (fst (desktopBridge UnmaximizeWindow (attach no_renderer_args [] [])))
   \<and> \<not> is_promise (fst (desktopBridge CloseWindow (attach no_renderer_args [] [])))
   \<and> \<not> is_promise (fst (desktopBridge ReloadWindow (attach no_renderer_args [] [])))
   \<and> promises (snd (desktopBridge MinimizeWindow (attach no_renderer_args [] []))) = 0
   \<and> suspended (snd (desktopBridge MinimizeWindow (attach no_renderer_args [] []))) = []"
  by (simp add: attach_no_renderer_args bridge_defs prim_defs)

text \<open>
  Claim C6, amended. The members of \<^verbatim>\<open>desktopBridge\<close> that call
  \<^verbatim>\<open>ipcRenderer.invoke\<close> are \<^verbatim>\<open>setRepresentedFilename\<close>, \<^verbatim>\<open>updateNativeColorScheme\<close>,
  \<^verbatim>\<open>updateLanguage\<close>, \<^verbatim>\<open>getCLIFlags\<close>, \<^verbatim>\<open>fetchLayouts\<close>, and the four extension
  operations while no handler is cached; each of them returns a new promise, which is
  rejected when the host fails the round trip. The members that call
  \<^verbatim>\<open>ipcRenderer.send\<close> are the title-bar double click and the minimize, maximize,
  unmaximize, close and reload commands; each of them returns \<^verbatim>\<open>undefined\<close> at once
  and changes nothing but the list of sent messages. The reads \<^verbatim>\<open>getDeepLinks\<close> and
  \<^verbatim>\<open>isMaximized\<close> return at once, without a promise, and change nothing.
\<close>
theorem host_operations_contract:
  "(invoked (snd (desktopBridge c s)) \<noteq> invoked s) =
     (case c of
        SetRepresentedFilename path \<Rightarrow> True
      | UpdateNativeColorScheme \<Rightarrow> True
      | UpdateLanguage \<Rightarrow> True
      | GetCLIFlags \<Rightarrow> True
      | FetchLayouts \<Rightarrow> True
      | GetExtensions \<Rightarrow> extensionHandler s = None
      | LoadExtension ext \<Rightarrow> extensionHandler s = None
      | InstallExtension foxeFileData \<Rightarrow> extensionHandler s = None
      | UninstallExtension ext \<Rightarrow> extensionHandler s = None
      | _ \<Rightarrow> False)
   \<and> (invoked (snd (desktopBridge c s)) \<noteq> invoked s \<longrightarrow>
        fst (desktopBridge c s) = Promise (promises s)
        \<and> settlement_of (promises s)
            (host_reply (promises s) (Inl e) (snd (desktopBridge c s))) = Some (Rejected e))
   \<and> (sent (snd (desktopBridge c s)) \<noteq> sent s) =
        (c \<in> {HandleTitleBarDoubleClick, MinimizeWindow, MaximizeWindow, UnmaximizeWindow,
               CloseWindow, ReloadWindow})
   \<and> (sent (snd (desktopBridge c s)) \<noteq> sent s \<longrightarrow>
        fst (desktopBridge c s) = Returns Undefined
        \<and> snd (desktopBridge c s) = s\<lparr>sent := sent (snd (desktopBridge c s))\<rparr>)
   \<and> (c = GetDeepLinks \<or> c = IsMaximized \<longrightarrow>
        snd (desktopBridge c s) = s \<and> \<not> is_promise (fst (desktopBridge c s)))"
  by (cases c)
     (simp_all add: bridge_defs prim_defs host_reply_def settlement_of_def
        split: option.splits)

theorem host_operations_contract_witness:
  "invoked (snd (desktopBridge (SetRepresentedFilename (Some ''a.mcap'')) (attach no_renderer_args [] [])))
     \<noteq> invoked (attach no_renderer_args [] [])
   \<and> fst (desktopBridge (SetRepresentedFilename (Some ''a.mcap'')) (attach no_renderer_args [] [])) =
       Promise 0
   \<and> settlement_of 0
        (host_reply 0 (Inl (HostError ''channel closed''))
          (snd (desktopBridge (SetRepresentedFilename (Some ''a.mcap'')) (attach no_renderer_args [] [])))) =
       Some (Rejected (HostError ''channel closed''))
   \<and> sent (snd (desktopBridge MinimizeWindow (attach no_renderer_args [] [])))
     \<noteq> sent (attach no_renderer_args [] [])
   \<and> fst (desktopBridge MinimizeWindow (attach no_renderer_args [] [])) = Returns Undefined
   \<and> (GetDeepLinks = GetDeepLinks \<or> GetDeepLinks = IsMaximized)
   \<and> snd (desktopBridge GetDeepLinks (attach no_renderer_args [] [])) = attach no_renderer_args [] []
   \<and> \<not> is_promise (fst (desktopBridge GetDeepLinks (attach no_renderer_args [] [])))"
proof -
  let ?s = "attach no_renderer_args [] []"
  have p: "promises ?s = 0"
    by (simp add: attach_no_renderer_args)
  have h1: "invoked (snd (desktopBridge (SetRepresentedFilename (Some ''a.mcap'')) ?s)) \<noteq> invoked ?s"
    by (simp add: setRepresentedFilename_def prim_defs)
  have h2: "sent (snd (desktopBridge MinimizeWindow ?s)) \<noteq> sent ?s"
    by (simp add: minimizeWindow_def prim_defs)
  have h3: "GetDeepLinks = GetDeepLinks \<or> GetDeepLinks = IsMaximized"
    by simp
  note i1 = host_operations_contract
    [where c = "SetRepresentedFilename (Some ''a.mcap'')" and s = ?s
      and e = "HostError ''channel closed''", unfolded p]
  note i2 = host_operations_contract [where c = MinimizeWindow and s = ?s]
  note i3 = host_operations_contract [where c = GetDeepLinks and s = ?s]
  from i1 h1 have a1: "fst (desktopBridge (SetRepresentedFilename (Some ''a.mcap'')) ?s) = Promise 0"
    and a2: "settlement_of 0
        (host_reply 0 (Inl (HostError ''channel closed''))
          (snd (desktopBridge (SetRepresentedFilename (Some ''a.mcap'')) ?s))) =
        Some (Rejected (HostError ''channel closed''))"
    by blast+
  from i2 h2 have a3: "fst (desktopBridge MinimizeWindow ?s) = Returns Undefined"
    by blast
  from i3 h3 have a4: "snd (desktopBridge GetDeepLinks ?s) = ?s"
    and a5: "\<not> is_promise (fst (desktopBridge GetDeepLinks ?s))"
    by blast+
  from h1 h2 h3 a1 a2 a3 a4 a5 show ?thesis
    by blast
qed

end
